theory Spec2Isabelle
  imports Main
begin

section \<open>The LLM summarizer processor\<close>

text \<open>
  The program (\<^verbatim>\<open>main.go\<close>, and the earlier build of the same \<^verbatim>\<open>main\<close> that embeds the
  pretty-printed JSON in the prompt) lists the \<^verbatim>\<open>*.json\<close> files of a directory, sends each
  to the LLM governor and renders the answer as a PDF. Everything it does is an effect on
  its surroundings, so the model threads a \<open>world\<close> (process environment, file system, and
  the sequence of external calls made so far) through the code, and every \<^verbatim>\<open>log.Fatal\<close>
  is a value of the type \<open>fatal\<close>. Progress lines written with \<^verbatim>\<open>log.Println\<close> and
  \<^verbatim>\<open>log.Printf\<close> go to standard error only and are left out.
\<close>

subsection \<open>Strings and paths of the Go standard library\<close>

text \<open>\<^verbatim>\<open>strings.HasSuffix\<close> and \<^verbatim>\<open>strings.TrimSuffix\<close>.\<close>

definition HasSuffix :: "string \<Rightarrow> string \<Rightarrow> bool" where
  "HasSuffix s suffix \<longleftrightarrow>
     length s \<ge> length suffix \<and> drop (length s - length suffix) s = suffix"

definition TrimSuffix :: "string \<Rightarrow> string \<Rightarrow> string" where
  "TrimSuffix s suffix =
     (if HasSuffix s suffix then take (length s - length suffix) s else s)"

definition IsPathSeparator :: "char \<Rightarrow> bool" where
  "IsPathSeparator c \<longleftrightarrow> c = CHR ''/''"

text \<open>
  \<^verbatim>\<open>filepath.Base\<close> (Unix): the empty path gives \<^verbatim>\<open>.\<close>; trailing separators are stripped;
  the last element is what follows the last separator; a path of separators only gives
  \<^verbatim>\<open>/\<close>.
\<close>

definition strip_trailing :: "string \<Rightarrow> string" where
  "strip_trailing p = rev (dropWhile IsPathSeparator (rev p))"

definition last_element :: "string \<Rightarrow> string" where
  "last_element p = rev (takeWhile (\<lambda>c. \<not> IsPathSeparator c) (rev p))"

definition Base :: "string \<Rightarrow> string" where
  "Base path =
     (if path = [] then ''.''
      else let p = last_element (strip_trailing path)
           in if p = [] then ''/'' else p)"

text \<open>
  \<^verbatim>\<open>filepath.Ext\<close>: scan from the end of the path; stop with the empty extension at a
  separator, and with the suffix that starts at the dot at the first dot met.
  \<open>ext_scan\<close> takes the characters still to visit (last first) and the ones visited.
\<close>

fun ext_scan :: "string \<Rightarrow> string \<Rightarrow> string" where
  "ext_scan [] seen = []"
| "ext_scan (c # cs) seen =
     (if IsPathSeparator c then []
      else if c = CHR ''.'' then c # seen
      else ext_scan cs (c # seen))"

definition Ext :: "string \<Rightarrow> string" where
  "Ext path = ext_scan (rev path) []"

text \<open>
  \<^verbatim>\<open>filepath.Clean\<close> (Unix). The library walks the path element by element: separators
  and \<^verbatim>\<open>.\<close> elements are skipped; a \<^verbatim>\<open>..\<close> element removes the element written before
  it, unless there is none or only \<^verbatim>\<open>..\<close> elements, and then it is dropped on a rooted
  path and kept on a relative one; any other element is written. The empty result is
  \<^verbatim>\<open>.\<close>. \<open>path_elems\<close> cuts the path at its separators, \<open>clean_step\<close> is one turn of the
  loop on the elements written so far (last written first).
\<close>

fun path_elems :: "string \<Rightarrow> string list" where
  "path_elems [] = [] # []"
| "path_elems (c # cs) =
     (if IsPathSeparator c then [] # path_elems cs
      else (case path_elems cs of
              e # es \<Rightarrow> (c # e) # es
            | [] \<Rightarrow> [c] # []))"

definition clean_step :: "bool \<Rightarrow> string list \<Rightarrow> string \<Rightarrow> string list" where
  "clean_step rooted out e =
     (if e = [] \<or> e = ''.'' then out
      else if e = ''..'' then
        (if out \<noteq> [] \<and> hd out \<noteq> ''..'' then tl out
         else if rooted then out
         else e # out)
      else e # out)"

fun join_sep :: "string list \<Rightarrow> string" where
  "join_sep [] = []"
| "join_sep [e] = e"
| "join_sep (e # es) = e @ ''/'' @ join_sep es"

definition Clean :: "string \<Rightarrow> string" where
  "Clean path =
     (if path = [] then ''.''
      else let rooted = IsPathSeparator (hd path);
               out = rev (foldl (clean_step rooted) [] (path_elems path))
           in if rooted then ''/'' @ join_sep out
              else if out = [] then ''.'' else join_sep out)"

text \<open>
  \<^verbatim>\<open>filepath.Join\<close>: the elements from the first non-empty one on are joined with
  separators and cleaned; with no non-empty element the result is empty.
\<close>

fun Join :: "string list \<Rightarrow> string" where
  "Join [] = []"
| "Join (e # es) = (if e \<noteq> [] then Clean (join_sep (e # es)) else Join es)"

text \<open>
  \<^verbatim>\<open>base64.StdEncoding.EncodeToString\<close>: three bytes give four characters of the standard
  alphabet, and a last group of one or two bytes is padded with \<^verbatim>\<open>=\<close>.
\<close>

definition encodeStd :: string where
  "encodeStd = ''ABCDEFGHIJKLMNOPQRSTUVWXYZabcdefghijklmnopqrstuvwxyz0123456789+/''"

definition b64 :: "nat \<Rightarrow> char" where
  "b64 n = encodeStd ! (n mod 64)"

fun EncodeToString :: "string \<Rightarrow> string" where
  "EncodeToString [] = []"
| "EncodeToString [a] =
     (let x = (of_char a :: nat)
      in [b64 (x div 4), b64 (x mod 4 * 16), CHR ''='', CHR ''=''])"
| "EncodeToString [a, b] =
     (let x = (of_char a :: nat); y = (of_char b :: nat)
      in [b64 (x div 4), b64 (x mod 4 * 16 + y div 16), b64 (y mod 16 * 4), CHR ''=''])"
| "EncodeToString (a # b # c # rest) =
     (let x = (of_char a :: nat); y = (of_char b :: nat); z = (of_char c :: nat)
      in [b64 (x div 4), b64 (x mod 4 * 16 + y div 16), b64 (y mod 16 * 4 + z div 64),
          b64 (z mod 64)] @ EncodeToString rest)"

subsection \<open>The process environment\<close>

type_synonym environment = "string \<rightharpoonup> string"

text \<open>\<^verbatim>\<open>os.Getenv\<close>: the value, which is empty when the variable is not present.\<close>

definition Getenv :: "environment \<Rightarrow> string \<Rightarrow> string" where
  "Getenv env key = (case env key of None \<Rightarrow> [] | Some v \<Rightarrow> v)"

text \<open>
  \<^verbatim>\<open>os.Setenv\<close> (Unix): an empty key, a key with \<^verbatim>\<open>=\<close> or a NUL byte, and a value with a
  NUL byte are refused with \<^verbatim>\<open>EINVAL\<close> and leave the environment as it was. The result
  is the error flag and the environment.
\<close>

definition Setenv :: "environment \<Rightarrow> string \<Rightarrow> string \<Rightarrow> bool \<times> environment" where
  "Setenv env key val =
     (if key = [] \<or> CHR ''='' \<in> set key \<or> CHR 0x00 \<in> set key \<or> CHR 0x00 \<in> set val
      then (True, env)
      else (False, env(key \<mapsto> val)))"

subsection \<open>The governor library: requests, answers, errors\<close>

datatype ContentBlock =
    TextBlock string
  | DocumentBlock string string string

record Message =
  Role :: string
  Content :: "ContentBlock list"

definition UserMessage :: "ContentBlock list \<Rightarrow> Message" where
  "UserMessage blocks = \<lparr>Role = ''user'', Content = blocks\<rparr>"

record InvokeRequest =
  Model :: string
  System :: string
  MaxTokens :: int
  Messages :: "Message list"

text \<open>
  The answer's usage and cost are only logged; the program consumes the text.
\<close>

record InvokeResponse =
  Text :: string

text \<open>
  An error of \<^verbatim>\<open>Invoke\<close> is a governor error (what \<^verbatim>\<open>llm.IsGovernorError\<close> recognises),
  with the answers of its two predicates, or any other error.
\<close>

record GovernorError =
  Code :: string
  Msg :: string
  AllowedModels :: "string list"
  IsBudgetExceeded :: bool
  IsModelNotAllowed :: bool

datatype invoke_error =
    GovernorErr GovernorError
  | OtherErr string

text \<open>
  Modelled from the spec: the governor client of the library \<^verbatim>\<open>pennsieve-go-llm\<close>, which
  is not part of the sources. \<^verbatim>\<open>llm.NewGovernor\<close> takes the gateway function reference
  from \<^verbatim>\<open>LLM_GOVERNOR_FUNCTION\<close> and the run identifier from \<^verbatim>\<open>EXECUTION_RUN_ID\<close> (the
  handler sets that variable because the library reads it), and the client is available
  when the function reference is set, as the program's own fatal message says.
\<close>

record Governor =
  functionName :: string
  govRunID :: string

definition NewGovernor :: "environment \<Rightarrow> Governor" where
  "NewGovernor env =
     \<lparr>functionName = Getenv env ''LLM_GOVERNOR_FUNCTION'',
      govRunID = Getenv env ''EXECUTION_RUN_ID''\<rparr>"

definition Available :: "Governor \<Rightarrow> bool" where
  "Available gov \<longleftrightarrow> functionName gov \<noteq> []"

subsection \<open>The PDF library\<close>

text \<open>
  The document under construction, as the library \<^verbatim>\<open>fpdf\<close> keeps it, for what
  \<^verbatim>\<open>generatePDF\<close> drives: the error state, the pages with what has been drawn on each,
  the vertical position of the cursor, the page break trigger, and the current font and
  colours. Once the error state is set, the calls that draw or select do nothing, and
  \<^verbatim>\<open>OutputFileAndClose\<close> returns that error without touching the file system. Text needs
  a font that has been selected, and what is drawn lands on the current page: before the
  first \<^verbatim>\<open>AddPage\<close> there is no page, and what is drawn then is on no page of the
  document.

  Lengths are whole numbers of 1/72000 mm. In that unit the measures of the portrait A4
  page, which is the one \<^verbatim>\<open>generatePDF\<close> asks for, are whole numbers: the page is 841.89
  points high and the default margins are 28.35 points, a point being 25.4/72 mm. The
  library computes with floating point numbers; their rounding is not modelled.
  Horizontal positions are not tracked, except for the ends of a line, which the caller
  gives.
\<close>

record Font =
  family :: string
  style :: string
  size :: nat

type_synonym colour = "nat \<times> nat \<times> nat"

text \<open>
  What a page shows: a cell of text, with its font, its colour, the height of its upper
  edge on the page, its own height and its text; or a straight line, with its colour and
  its two ends.
\<close>

datatype element =
    Cell Font colour int int string
  | Rule colour int int int int

type_synonym page = "element list"

record Fpdf =
  orientation :: string
  unit :: string
  pageSize :: string
  fontDir :: string
  docErr :: "string option"
  pageHeight :: int
  tMargin :: int
  autoPageBreak :: bool
  pageBreakTrigger :: int
  pages :: "page list"
  curY :: int
  lasth :: int
  font :: Font
  textColor :: colour
  drawColor :: colour

definition mm :: "int \<Rightarrow> int" where
  "mm n = n * 72000"

text \<open>
  \<^verbatim>\<open>fpdf.New\<close> for a portrait A4 page measured in millimetres: no page yet, no font
  selected (the size defaults to 12 points), black text and lines, and automatic page
  breaks at twice the default margin from the bottom.
\<close>

definition New :: "string \<Rightarrow> string \<Rightarrow> string \<Rightarrow> string \<Rightarrow> Fpdf" where
  "New orientationStr unitStr sizeStr fontDirStr =
     \<lparr>orientation = orientationStr, unit = unitStr, pageSize = sizeStr,
      fontDir = fontDirStr, docErr = None, pageHeight = 21384006, tMargin = 720090,
      autoPageBreak = True, pageBreakTrigger = 21384006 - 2 * 720090, pages = [],
      curY = 0, lasth = 0, font = \<lparr>family = [], style = [], size = 12\<rparr>,
      textColor = (0, 0, 0), drawColor = (0, 0, 0)\<rparr>"

definition SetAutoPageBreak :: "bool \<Rightarrow> int \<Rightarrow> Fpdf \<Rightarrow> Fpdf" where
  "SetAutoPageBreak auto margin pdf =
     pdf\<lparr>autoPageBreak := auto, pageBreakTrigger := pageHeight pdf - margin\<rparr>"

text \<open>
  \<^verbatim>\<open>AddPage\<close> starts a new page, which becomes the current one, with the cursor at the
  top margin; the font and the colours carry over.
\<close>

definition AddPage :: "Fpdf \<Rightarrow> Fpdf" where
  "AddPage pdf =
     (if docErr pdf \<noteq> None then pdf
      else pdf\<lparr>pages := pages pdf @ [] # [], curY := tMargin pdf\<rparr>)"

text \<open>
  \<^verbatim>\<open>SetFont\<close>: the family is taken in lower case (an empty one stands for the current
  family, and \<^verbatim>\<open>arial\<close> for \<^verbatim>\<open>helvetica\<close>), the style in upper case without the marks for
  underline and strike-out, a size of zero stands for the current size, and a font that
  is not among the core fonts embedded in the library (no other font is ever added here)
  sets the error state.
\<close>

definition toLower :: "char \<Rightarrow> char" where
  "toLower c =
     (case map_of (zip ''ABCDEFGHIJKLMNOPQRSTUVWXYZ'' ''abcdefghijklmnopqrstuvwxyz'') c of
        Some l \<Rightarrow> l
      | None \<Rightarrow> c)"

definition toUpper :: "char \<Rightarrow> char" where
  "toUpper c =
     (case map_of (zip ''abcdefghijklmnopqrstuvwxyz'' ''ABCDEFGHIJKLMNOPQRSTUVWXYZ'') c of
        Some u \<Rightarrow> u
      | None \<Rightarrow> c)"

definition coreFont :: "string \<Rightarrow> string \<Rightarrow> bool" where
  "coreFont familyStr styleStr \<longleftrightarrow>
     (familyStr \<in> set [''courier'', ''helvetica'', ''times''] \<and>
      (styleStr = [] \<or> styleStr \<in> set [''B'', ''I'', ''BI''])) \<or>
     (familyStr \<in> set [''symbol'', ''zapfdingbats''] \<and> styleStr = [])"

definition SetFont :: "string \<Rightarrow> string \<Rightarrow> nat \<Rightarrow> Fpdf \<Rightarrow> Fpdf" where
  "SetFont familyStr styleStr sz pdf =
     (if docErr pdf \<noteq> None then pdf
      else let fam = (if familyStr = [] then family (font pdf) else map toLower familyStr);
               fam = (if fam = ''arial'' then ''helvetica'' else fam);
               sty = filter (\<lambda>c. c \<noteq> CHR ''U'' \<and> c \<noteq> CHR ''S'') (map toUpper styleStr);
               sty = (if sty = ''IB'' then ''BI'' else sty);
               sty = (if fam = ''symbol'' \<or> fam = ''zapfdingbats'' then [] else sty);
               pt = (if sz = 0 then size (font pdf) else sz)
           in if coreFont fam sty
              then pdf\<lparr>font := \<lparr>family = fam, style = sty, size = pt\<rparr>\<rparr>
              else pdf\<lparr>docErr := Some (''could not locate '' @ [CHR 0x22] @ fam @ sty @
                     [CHR 0x22] @ '' among embedded core font definition files'')\<rparr>)"

definition SetTextColor :: "nat \<Rightarrow> nat \<Rightarrow> nat \<Rightarrow> Fpdf \<Rightarrow> Fpdf" where
  "SetTextColor r g b pdf = pdf\<lparr>textColor := (r, g, b)\<rparr>"

definition SetDrawColor :: "nat \<Rightarrow> nat \<Rightarrow> nat \<Rightarrow> Fpdf \<Rightarrow> Fpdf" where
  "SetDrawColor r g b pdf = pdf\<lparr>drawColor := (r, g, b)\<rparr>"

text \<open>What is drawn goes to the end of the current page, when there is one.\<close>

definition draw :: "element \<Rightarrow> Fpdf \<Rightarrow> Fpdf" where
  "draw e pdf =
     (if pages pdf = [] then pdf
      else pdf\<lparr>pages := butlast (pages pdf) @ [last (pages pdf) @ [e]]\<rparr>)"

text \<open>
  \<^verbatim>\<open>CellFormat\<close>, called as the program calls it (no border, left alignment, no fill, no
  link): without a selected font it sets the error state; a cell that would pass the
  page break trigger starts a new page first; a cell with an empty text shows nothing;
  and with \<open>ln > 0\<close> the cursor moves below the cell.
\<close>

definition CellFormat :: "int \<Rightarrow> int \<Rightarrow> string \<Rightarrow> nat \<Rightarrow> Fpdf \<Rightarrow> Fpdf" where
  "CellFormat w h txtStr ln pdf =
     (if docErr pdf \<noteq> None then pdf
      else if family (font pdf) = []
      then pdf\<lparr>docErr := Some ''font has not been set; unable to render text''\<rparr>
      else let pdf = (if curY pdf + h > pageBreakTrigger pdf \<and> autoPageBreak pdf
                      then AddPage pdf else pdf);
               pdf = (if txtStr \<noteq> []
                      then draw (Cell (font pdf) (textColor pdf) (curY pdf) h txtStr) pdf
                      else pdf);
               pdf = pdf\<lparr>lasth := h\<rparr>
           in if ln > 0 then pdf\<lparr>curY := curY pdf + h\<rparr> else pdf)"

text \<open>\<^verbatim>\<open>Ln\<close> moves the cursor down; a negative height stands for that of the last cell.\<close>

definition Ln :: "int \<Rightarrow> Fpdf \<Rightarrow> Fpdf" where
  "Ln h pdf = pdf\<lparr>curY := curY pdf + (if h < 0 then lasth pdf else h)\<rparr>"

definition GetY :: "Fpdf \<Rightarrow> int" where
  "GetY pdf = curY pdf"

definition Line :: "int \<Rightarrow> int \<Rightarrow> int \<Rightarrow> int \<Rightarrow> Fpdf \<Rightarrow> Fpdf" where
  "Line x1 y1 x2 y2 pdf = draw (Rule (drawColor pdf) x1 y1 x2 y2) pdf"

text \<open>
  \<^verbatim>\<open>MultiCell\<close> cuts the text into lines, at its line feeds and where the width of the
  characters in the current font fills the page, and prints each line as a cell below
  the one before. The character widths belong to the font files of the library, so the
  cutting is a parameter here: \<open>split\<close> gives the lines for a font and a text.
\<close>

definition MultiCell ::
  "(Font \<Rightarrow> string \<Rightarrow> string list) \<Rightarrow> int \<Rightarrow> int \<Rightarrow> string \<Rightarrow> Fpdf \<Rightarrow> Fpdf" where
  "MultiCell split w h txtStr pdf =
     foldl (\<lambda>pdf line. CellFormat w h line 2 pdf) pdf (split (font pdf) txtStr)"

subsection \<open>The surroundings of the process\<close>

text \<open>
  The calls the process makes to the file system and to the governor, in order.
\<close>

datatype event =
    GlobCall string
  | ReadFileCall string
  | InvokeCall Governor InvokeRequest
  | CreateCall string Fpdf

text \<open>
  A file holds bytes, or it is a finished report, which holds the pages the library
  wrote into it. It is read-only when the process may not open it for writing.
\<close>

datatype contents =
    Bytes string
  | Report "page list"

record entry =
  contents :: contents
  readonly :: bool

record world =
  environ :: environment
  files :: "string \<rightharpoonup> entry"
  calls :: "event list"

text \<open>
  What the program does not decide itself: the directory listing of \<^verbatim>\<open>filepath.Glob\<close>
  (a bad pattern is its only error), the JSON decoder and encoder, the governor's answer
  (which may depend on everything that happened before, as a budget does), the clock
  (already in the layout \<^verbatim>\<open>2006-01-02 15:04 UTC\<close>), whether the process runs as root, its
  file mode creation mask, whether the operating system refuses to make a new file at a
  path (a missing directory, a directory that may not be written), whether a write
  fails and after how many bytes, the bytes of a report, the way \<^verbatim>\<open>MultiCell\<close> cuts a
  text into lines, and the model identifier \<^verbatim>\<open>llm.ModelHaiku45\<close>, a constant of the
  library.
\<close>

record 'j platform =
  Glob :: "(string \<rightharpoonup> entry) \<Rightarrow> string \<Rightarrow> string + string list"
  Unmarshal :: "string \<Rightarrow> string + 'j"
  MarshalIndent :: "'j \<Rightarrow> string + string"
  Invoke :: "event list \<Rightarrow> Governor \<Rightarrow> InvokeRequest \<Rightarrow> invoke_error + InvokeResponse"
  Now :: "event list \<Rightarrow> string"
  Root :: bool
  Umask :: nat
  Mkfile :: "event list \<Rightarrow> string \<Rightarrow> string option"
  WriteTo :: "event list \<Rightarrow> string \<Rightarrow> string \<Rightarrow> (nat \<times> string) option"
  Output :: "page list \<Rightarrow> string"
  SplitText :: "Font \<Rightarrow> string \<Rightarrow> string list"
  ModelHaiku45 :: string

text \<open>Every \<^verbatim>\<open>log.Fatal\<close> of the program, which ends the process with status 1.\<close>

datatype fatal =
    DirsRequired
  | GovernorNotAvailable
  | ListFailed string
  | NoJSONFiles
  | ReadFailed string
  | InvalidJSON string string
  | FormatFailed string
  | BudgetExceeded string
  | ModelNotAllowed "string list"
  | GovernorFailed string string
  | InvokeFailed string
  | PDFFailed string

datatype outcome = Complete | Fatal fatal

text \<open>The payload sent by the orchestrator when the processor runs as a Lambda function.\<close>

record LambdaEvent =
  InputDir :: string
  OutputDir :: string
  ExecutionRunID :: string
  ComputeNodeID :: string
  SessionToken :: string
  RefreshToken :: string

text \<open>
  A \<^verbatim>\<open>for ... range\<close> loop whose body may end the process: the first fatal error stops
  it, and the elements after it are never visited.
\<close>

fun for_range ::
  "('a \<Rightarrow> world \<Rightarrow> outcome \<times> world) \<Rightarrow> 'a list \<Rightarrow> world \<Rightarrow> outcome \<times> world" where
  "for_range body [] w = (Complete, w)"
| "for_range body (x # xs) w =
     (case body x w of
        (Fatal f, w') \<Rightarrow> (Fatal f, w')
      | (Complete, w') \<Rightarrow> for_range body xs w')"

subsection \<open>Reading and creating files\<close>

text \<open>
  \<^verbatim>\<open>os.ReadFile\<close>: the bytes of the file at the path; those of a report are the bytes the
  library gave it. A path with no file is the error.
\<close>

definition ReadFile :: "'j platform \<Rightarrow> (string \<rightharpoonup> entry) \<Rightarrow> string \<Rightarrow> string option" where
  "ReadFile X fs name =
     (case fs name of
        None \<Rightarrow> None
      | Some f \<Rightarrow> Some (case contents f of Bytes b \<Rightarrow> b | Report ps \<Rightarrow> Output X ps))"

text \<open>
  The permission bits of a new file are \<^verbatim>\<open>0666\<close> without those of the mask, so the file
  is read-only for its owner when the mask holds the owner's write bit, \<^verbatim>\<open>0200\<close>.
\<close>

definition masksOwnerWrite :: "nat \<Rightarrow> bool" where
  "masksOwnerWrite um \<longleftrightarrow> odd (um div 128)"

text \<open>
  \<^verbatim>\<open>os.Create\<close> opens the file for writing, \<^verbatim>\<open>O_RDWR|O_CREATE|O_TRUNC\<close> with mode
  \<^verbatim>\<open>0666\<close>. A file that is there is emptied and keeps its permissions, unless it is
  read-only and the process is not root: then the call fails with \<^verbatim>\<open>EACCES\<close> and the
  file stays as it is. Where no file is, one is made, empty, when the operating system
  allows it, and the permission check is not made on the file just made. The result is
  the error, if any, and the world after the call.
\<close>

definition Create :: "'j platform \<Rightarrow> string \<Rightarrow> world \<Rightarrow> string option \<times> world" where
  "Create X name w =
     (case files w name of
        Some f \<Rightarrow>
          if readonly f \<and> \<not> Root X
          then (Some (''open '' @ name @ '': permission denied''), w)
          else (None, w\<lparr>files := (files w)(name \<mapsto> f\<lparr>contents := Bytes []\<rparr>)\<rparr>)
      | None \<Rightarrow>
          (case Mkfile X (calls w) name of
             Some e \<Rightarrow> (Some e, w)
           | None \<Rightarrow>
               (None, w\<lparr>files := (files w)(name \<mapsto>
                  \<lparr>contents = Bytes [], readonly = masksOwnerWrite (Umask X)\<rparr>)\<rparr>)))"

text \<open>Writing through the open file replaces what the file holds.\<close>

definition put :: "string \<Rightarrow> contents \<Rightarrow> world \<Rightarrow> world" where
  "put name c w =
     (case files w name of
        None \<Rightarrow> w
      | Some f \<Rightarrow> w\<lparr>files := (files w)(name \<mapsto> f\<lparr>contents := c\<rparr>)\<rparr>)"

subsection \<open>\<^verbatim>\<open>generatePDF\<close>\<close>

text \<open>
  \<^verbatim>\<open>OutputFileAndClose\<close>: a document in its error state gives that error and no file is
  touched. Otherwise the file is created; closing the document gives it one empty page
  if it has none; and the bytes are written. A write that fails leaves the bytes that
  got through in the file and gives the error; a write that succeeds leaves the report.
\<close>

definition OutputFileAndClose ::
  "'j platform \<Rightarrow> string \<Rightarrow> Fpdf \<Rightarrow> world \<Rightarrow> string option \<times> world" where
  "OutputFileAndClose X fileStr pdf w =
     (case docErr pdf of
        Some e \<Rightarrow> (Some e, w)
      | None \<Rightarrow>
          (case Create X fileStr (w\<lparr>calls := calls w @ [CreateCall fileStr pdf]\<rparr>) of
             (Some e, w1) \<Rightarrow> (Some e, w1)
           | (None, w1) \<Rightarrow>
               (let ps = (if pages pdf = [] then [] # [] else pages pdf)
                in case WriteTo X (calls w1) fileStr (Output X ps) of
                     Some (n, e) \<Rightarrow> (Some e, put fileStr (Bytes (take n (Output X ps))) w1)
                   | None \<Rightarrow> (None, put fileStr (Report ps) w1))))"

text \<open>
  The document \<^verbatim>\<open>generatePDF\<close> builds before it writes it; \<open>stamp\<close> is the clock and
  \<open>split\<close> the way the body is cut into lines.
\<close>

definition document ::
  "(Font \<Rightarrow> string \<Rightarrow> string list) \<Rightarrow> string \<Rightarrow> string \<Rightarrow> string \<Rightarrow> Fpdf" where
  "document split title body stamp =
     (let pdf = New ''P'' ''mm'' ''A4'' [];
          pdf = SetAutoPageBreak True (mm 20) pdf;
          pdf = AddPage pdf;
          pdf = SetFont ''Helvetica'' ''B'' 18 pdf;
          pdf = CellFormat 0 (mm 12) (''Dataset Summary: '' @ title) 1 pdf;
          pdf = Ln (mm 4) pdf;
          pdf = SetFont ''Helvetica'' [] 9 pdf;
          pdf = SetTextColor 128 128 128 pdf;
          pdf = CellFormat 0 (mm 5)
                  (''Generated '' @ stamp @ '' by Pennsieve LLM Summarizer'') 1 pdf;
          pdf = Ln (mm 6) pdf;
          pdf = SetDrawColor 200 200 200 pdf;
          pdf = Line (mm 10) (GetY pdf) (mm 200) (GetY pdf) pdf;
          pdf = Ln (mm 6) pdf;
          pdf = SetFont ''Helvetica'' [] 11 pdf;
          pdf = SetTextColor 0 0 0 pdf;
          pdf = MultiCell split 0 (mm 6) body pdf
      in pdf)"

definition generatePDF ::
  "'j platform \<Rightarrow> string \<Rightarrow> string \<Rightarrow> string \<Rightarrow> world \<Rightarrow> string option \<times> world" where
  "generatePDF X path title body w =
     OutputFileAndClose X path (document (SplitText X) title body (Now X (calls w))) w"

subsection \<open>\<^verbatim>\<open>runProcessor\<close>, \<^verbatim>\<open>handleLambda\<close> and \<^verbatim>\<open>main\<close>\<close>

definition systemPrompt :: string where
  "systemPrompt = ''You are a data analyst. Summarize datasets clearly and concisely. Use plain text paragraphs, not markdown.''"

definition prompt :: string where
  "prompt = ''The attached JSON document represents a dataset. Please provide a comprehensive summary that includes:\<newline>\<newline>1. Overview: What this dataset contains and its purpose\<newline>2. Structure: The key fields and their types\<newline>3. Content Summary: A description of the data values and any patterns\<newline>4. Potential Uses: What this dataset could be used for''"

text \<open>The switch on the error of \<^verbatim>\<open>gov.Invoke\<close>; the first case that applies wins.\<close>

definition invokeFatal :: "invoke_error \<Rightarrow> fatal" where
  "invokeFatal err =
     (case err of
        GovernorErr ge \<Rightarrow>
          (if IsBudgetExceeded ge then BudgetExceeded (Msg ge)
           else if IsModelNotAllowed ge then ModelNotAllowed (AllowedModels ge)
           else GovernorFailed (Code ge) (Msg ge))
      | OtherErr e \<Rightarrow> InvokeFailed e)"

text \<open>The request handed to \<^verbatim>\<open>gov.Invoke\<close> for one file.\<close>

definition documentRequest :: "'j platform \<Rightarrow> string \<Rightarrow> string \<Rightarrow> InvokeRequest" where
  "documentRequest X docName docB64 =
     \<lparr>Model = ModelHaiku45 X, System = systemPrompt, MaxTokens = 2048,
      Messages = [UserMessage [DocumentBlock docName ''txt'' docB64, TextBlock prompt]]\<rparr>"

text \<open>The body of the loop over the listed files.\<close>

definition runProcessor_file ::
  "'j platform \<Rightarrow> Governor \<Rightarrow> string \<Rightarrow> string \<Rightarrow> world \<Rightarrow> outcome \<times> world" where
  "runProcessor_file X gov outputDir jsonFile w =
     (let w1 = w\<lparr>calls := calls w @ [ReadFileCall jsonFile]\<rparr>
      in case ReadFile X (files w) jsonFile of
           None \<Rightarrow> (Fatal (ReadFailed jsonFile), w1)
         | Some data \<Rightarrow>
             (case Unmarshal X data of
                Inl err \<Rightarrow> (Fatal (InvalidJSON jsonFile err), w1)
              | Inr parsed \<Rightarrow>
                  (let docName = TrimSuffix (Base jsonFile) (Ext jsonFile);
                       docB64 = EncodeToString data;
                       req = documentRequest X docName docB64;
                       w2 = w1\<lparr>calls := calls w1 @ [InvokeCall gov req]\<rparr>
                   in case Invoke X (calls w1) gov req of
                        Inl err \<Rightarrow> (Fatal (invokeFatal err), w2)
                      | Inr resp \<Rightarrow>
                          (let summary = Text resp;
                               baseName = TrimSuffix (Base jsonFile) (Ext jsonFile);
                               pdfPath = Join [outputDir, baseName @ ''-summary.pdf'']
                           in case generatePDF X pdfPath baseName summary w2 of
                                (Some err, w3) \<Rightarrow> (Fatal (PDFFailed err), w3)
                              | (None, w3) \<Rightarrow> (Complete, w3)))))"

definition runProcessor ::
  "'j platform \<Rightarrow> string \<Rightarrow> string \<Rightarrow> string \<Rightarrow> world \<Rightarrow> outcome \<times> world" where
  "runProcessor X inputDir outputDir executionRunID w =
     (if inputDir = [] \<or> outputDir = [] then (Fatal DirsRequired, w)
      else let gov = NewGovernor (environ w)
           in if \<not> Available gov then (Fatal GovernorNotAvailable, w)
              else let pattern = Join [inputDir, ''*.json''];
                       w1 = w\<lparr>calls := calls w @ [GlobCall pattern]\<rparr>
                   in case Glob X (files w) pattern of
                        Inl err \<Rightarrow> (Fatal (ListFailed err), w1)
                      | Inr jsonFiles \<Rightarrow>
                          if length jsonFiles = 0 then (Fatal NoJSONFiles, w1)
                          else for_range (runProcessor_file X gov outputDir) jsonFiles w1)"

text \<open>
  The handler ignores the result of \<^verbatim>\<open>os.Setenv\<close> and returns \<^verbatim>\<open>nil\<close> when
  \<^verbatim>\<open>runProcessor\<close> returns.
\<close>

definition handleLambda :: "'j platform \<Rightarrow> LambdaEvent \<Rightarrow> world \<Rightarrow> outcome \<times> world" where
  "handleLambda X event w =
     (let w1 = w\<lparr>environ := snd (Setenv (environ w) ''EXECUTION_RUN_ID'' (ExecutionRunID event))\<rparr>
      in runProcessor X (InputDir event) (OutputDir event) (ExecutionRunID event) w1)"

text \<open>
  \<^verbatim>\<open>lambda.Start\<close> hands the payload the runtime delivers to the handler; \<open>event\<close> is that
  payload, and it plays no part when the process runs on its own (the ECS branch).
\<close>

definition main :: "'j platform \<Rightarrow> LambdaEvent \<Rightarrow> world \<Rightarrow> outcome \<times> world" where
  "main X event w =
     (if Getenv (environ w) ''AWS_LAMBDA_RUNTIME_API'' \<noteq> [] then handleLambda X event w
      else runProcessor X (Getenv (environ w) ''INPUT_DIR'') (Getenv (environ w) ''OUTPUT_DIR'')
             (Getenv (environ w) ''EXECUTION_RUN_ID'') w)"

subsection \<open>The build that embeds the JSON in the prompt\<close>

definition embeddedPrompt :: string where
  "embeddedPrompt = ''The following JSON represents a dataset. Please provide a comprehensive summary that includes:\<newline>\<newline>1. **Overview**: What this dataset contains and its purpose\<newline>2. **Structure**: The key fields and their types\<newline>3. **Content Summary**: A description of the data values and any patterns\<newline>4. **Potential Uses**: What this dataset could be used for\<newline>\<newline>JSON content:\<newline>''"

definition embeddedRequest :: "'j platform \<Rightarrow> string \<Rightarrow> InvokeRequest" where
  "embeddedRequest X promptText =
     \<lparr>Model = ModelHaiku45 X, System = systemPrompt, MaxTokens = 2048,
      Messages = [UserMessage [TextBlock promptText]]\<rparr>"

definition embedded_file ::
  "'j platform \<Rightarrow> Governor \<Rightarrow> string \<Rightarrow> string \<Rightarrow> world \<Rightarrow> outcome \<times> world" where
  "embedded_file X gov outputDir jsonFile w =
     (let w1 = w\<lparr>calls := calls w @ [ReadFileCall jsonFile]\<rparr>
      in case ReadFile X (files w) jsonFile of
           None \<Rightarrow> (Fatal (ReadFailed jsonFile), w1)
         | Some data \<Rightarrow>
             (case Unmarshal X data of
                Inl err \<Rightarrow> (Fatal (InvalidJSON jsonFile err), w1)
              | Inr parsed \<Rightarrow>
                  (case MarshalIndent X parsed of
                     Inl err \<Rightarrow> (Fatal (FormatFailed err), w1)
                   | Inr prettyJSON \<Rightarrow>
                       (let req = embeddedRequest X (embeddedPrompt @ prettyJSON);
                            w2 = w1\<lparr>calls := calls w1 @ [InvokeCall gov req]\<rparr>
                        in case Invoke X (calls w1) gov req of
                             Inl err \<Rightarrow> (Fatal (invokeFatal err), w2)
                           | Inr resp \<Rightarrow>
                               (let summary = Text resp;
                                    baseName = TrimSuffix (Base jsonFile) (Ext jsonFile);
                                    pdfPath = Join [outputDir, baseName @ ''-summary.pdf'']
                                in case generatePDF X pdfPath baseName summary w2 of
                                     (Some err, w3) \<Rightarrow> (Fatal (PDFFailed err), w3)
                                   | (None, w3) \<Rightarrow> (Complete, w3))))))"

definition main_embedded :: "'j platform \<Rightarrow> world \<Rightarrow> outcome \<times> world" where
  "main_embedded X w =
     (let inputDir = Getenv (environ w) ''INPUT_DIR'';
          outputDir = Getenv (environ w) ''OUTPUT_DIR''
      in if inputDir = [] \<or> outputDir = [] then (Fatal DirsRequired, w)
         else let gov = NewGovernor (environ w)
              in if \<not> Available gov then (Fatal GovernorNotAvailable, w)
                 else let pattern = Join [inputDir, ''*.json''];
                          w1 = w\<lparr>calls := calls w @ [GlobCall pattern]\<rparr>
                      in case Glob X (files w) pattern of
                           Inl err \<Rightarrow> (Fatal (ListFailed err), w1)
                         | Inr jsonFiles \<Rightarrow>
                             if length jsonFiles = 0 then (Fatal NoJSONFiles, w1)
                             else for_range (embedded_file X gov outputDir) jsonFiles w1)"

subsection \<open>What is observed of a run\<close>

text \<open>The requests sent to the governor and the paths handed to the PDF writer, in order.\<close>

fun invoked :: "event list \<Rightarrow> InvokeRequest list" where
  "invoked [] = []"
| "invoked (InvokeCall gov req # es) = req # invoked es"
| "invoked (e # es) = invoked es"

text \<open>The governor clients the requests were sent through.\<close>

fun governors :: "event list \<Rightarrow> Governor list" where
  "governors [] = []"
| "governors (InvokeCall gov req # es) = gov # governors es"
| "governors (e # es) = governors es"

fun created :: "event list \<Rightarrow> string list" where
  "created [] = []"
| "created (CreateCall path pdf # es) = path # created es"
| "created (e # es) = created es"

text \<open>
  The text an element shows, if it shows any, and the texts a reader meets in a document,
  page after page and down each page.
\<close>

fun shown :: "element \<Rightarrow> string option" where
  "shown (Cell f c y h txt) = Some txt"
| "shown (Rule c x1 y1 x2 y2) = None"

definition texts :: "page list \<Rightarrow> string list" where
  "texts ps = List.map_filter shown (concat ps)"

text \<open>The same with the font and the colour of each text.\<close>

fun printed :: "element \<Rightarrow> (Font \<times> colour \<times> string) option" where
  "printed (Cell f c y h txt) = Some (f, c, txt)"
| "printed (Rule c x1 y1 x2 y2) = None"

definition cells :: "page list \<Rightarrow> (Font \<times> colour \<times> string) list" where
  "cells ps = List.map_filter printed (concat ps)"

subsection \<open>Notions used to state the properties\<close>

text \<open>
  The base name \<^verbatim>\<open>runProcessor\<close> derives from an input path, and the path of the report
  it writes for it.
\<close>

abbreviation baseNameOf :: "string \<Rightarrow> string" where
  "baseNameOf jsonFile \<equiv> TrimSuffix (Base jsonFile) (Ext jsonFile)"

abbreviation pdfPathOf :: "string \<Rightarrow> string \<Rightarrow> string" where
  "pdfPathOf outputDir jsonFile \<equiv> Join [outputDir, baseNameOf jsonFile @ ''-summary.pdf'']"

text \<open>
  The directory part that \<^verbatim>\<open>filepath.Clean\<close> produces for a path: what it writes before
  the last element.
\<close>

definition clean_dir :: "string \<Rightarrow> string" where
  "clean_dir path =
     (let rooted = IsPathSeparator (hd path);
          out = rev (foldl (clean_step rooted) [] (butlast (path_elems path)))
      in (if rooted then ''/'' else []) @ (if out = [] then [] else join_sep out @ ''/''))"

text \<open>
  How a run that has an invalid file in its listing ends: fatally, having only added
  calls; and either its error is the validation error of that file and the read of the
  file is its last call, or the file was never read.
\<close>

definition stops_at_invalid :: "string \<Rightarrow> string \<Rightarrow> world \<Rightarrow> outcome \<times> world \<Rightarrow> bool" where
  "stops_at_invalid jsonFile err w result =
     (case fst result of
        Complete \<Rightarrow> False
      | Fatal f \<Rightarrow>
          take (length (calls w)) (calls (snd result)) = calls w \<and>
          (let evs = drop (length (calls w)) (calls (snd result))
           in (f = InvalidJSON jsonFile err \<and> evs \<noteq> [] \<and> last evs = ReadFileCall jsonFile) \<or>
              ReadFileCall jsonFile \<notin> set evs))"




subsection \<open>A small installation to run the program on\<close>

text \<open>
  Two input files in \<^verbatim>\<open>in\<close>; a good and a broken file in \<^verbatim>\<open>mixed\<close>; nothing anywhere
  else; a decoder that refuses a lone opening brace; a governor that always answers, and
  one whose budget is used up by the first request. The process is not root, its mask
  is \<^verbatim>\<open>022\<close>, nothing stops it from making files and writing them, and a body is one
  line. In the installation \<open>demo_masked\<close> the mask is \<^verbatim>\<open>222\<close>, and in \<open>demo_full\<close>
  the device is full once a first file has been written.
\<close>

definition demoGlob :: "(string \<rightharpoonup> entry) \<Rightarrow> string \<Rightarrow> string + string list" where
  "demoGlob fs pattern =
     (if pattern = ''in/*.json'' then Inr [''in/patients.json'', ''in/study.json'']
      else if pattern = ''mixed/*.json'' then Inr [''mixed/good.json'', ''mixed/broken.json'']
      else Inr [])"

definition regular :: "string \<Rightarrow> entry" where
  "regular b = \<lparr>contents = Bytes b, readonly = False\<rparr>"

definition demoAnswer :: InvokeResponse where
  "demoAnswer = \<lparr>Text = ''This dataset contains patient records.''\<rparr>"

definition demoBudget :: GovernorError where
  "demoBudget =
     \<lparr>Code = ''BUDGET_EXCEEDED'', Msg = ''monthly budget used up'', AllowedModels = [],
      IsBudgetExceeded = True, IsModelNotAllowed = False\<rparr>"

definition demo :: "string platform" where
  "demo =
     \<lparr>Glob = demoGlob,
      Unmarshal = (\<lambda>data. if data = ''{'' then Inl ''unexpected end of JSON input''
                          else Inr data),
      MarshalIndent = (\<lambda>parsed. Inr parsed),
      Invoke = (\<lambda>history gov req. Inr demoAnswer),
      Now = (\<lambda>history. ''2024-05-01 12:00 UTC''),
      Root = False,
      Umask = 18,
      Mkfile = (\<lambda>history path. None),
      WriteTo = (\<lambda>history path bytes. None),
      Output = (\<lambda>ps. concat (texts ps)),
      SplitText = (\<lambda>f txt. [txt]),
      ModelHaiku45 = ''haiku-4.5''\<rparr>"

definition demo_tight :: "string platform" where
  "demo_tight =
     demo\<lparr>Invoke := (\<lambda>history gov req.
             if invoked history = [] then Inr demoAnswer else Inl (GovernorErr demoBudget))\<rparr>"

definition demo_masked :: "string platform" where
  "demo_masked = demo\<lparr>Umask := 146\<rparr>"

definition demo_full :: "string platform" where
  "demo_full =
     demo\<lparr>WriteTo := (\<lambda>history path bytes.
             if length (created history) > 1
             then Some (0, ''write '' @ path @ '': no space left on device'')
             else None)\<rparr>"

definition demo_world :: world where
  "demo_world =
     \<lparr>environ = [''INPUT_DIR'' \<mapsto> ''in'', ''OUTPUT_DIR'' \<mapsto> ''out'',
                 ''EXECUTION_RUN_ID'' \<mapsto> ''run-1'',
                 ''LLM_GOVERNOR_FUNCTION'' \<mapsto> ''arn:aws:lambda:function:llm-governor''],
      files = [''in/patients.json'' \<mapsto> regular ''{}'', ''in/study.json'' \<mapsto> regular ''[]'',
               ''mixed/good.json'' \<mapsto> regular ''{}'',
               ''mixed/broken.json'' \<mapsto> regular ''{''],
      calls = []\<rparr>"

definition demo_event :: LambdaEvent where
  "demo_event =
     \<lparr>InputDir = ''in'', OutputDir = ''out'', ExecutionRunID = ''run-1'',
      ComputeNodeID = ''node-1'', SessionToken = ''s'', RefreshToken = ''r''\<rparr>"

definition demo_world_ungoverned :: world where
  "demo_world_ungoverned =
     demo_world\<lparr>environ := (environ demo_world)(''LLM_GOVERNOR_FUNCTION'' := None)\<rparr>"

definition demo_world_mixed :: world where
  "demo_world_mixed =
     demo_world\<lparr>environ := (environ demo_world)(''INPUT_DIR'' \<mapsto> ''mixed'')\<rparr>"

definition demo_world_lambda :: world where
  "demo_world_lambda =
     demo_world\<lparr>environ :=
       [''AWS_LAMBDA_RUNTIME_API'' \<mapsto> ''127.0.0.1:9001'',
        ''LLM_GOVERNOR_FUNCTION'' \<mapsto> ''arn:aws:lambda:function:llm-governor'']\<rparr>"

definition demo_event_nul :: LambdaEvent where
  "demo_event_nul = demo_event\<lparr>ExecutionRunID := [CHR ''r'', CHR 0x00]\<rparr>"

text \<open>The world after the first file of \<^verbatim>\<open>in\<close> has been processed on a tight budget.\<close>

definition demo_after_patients :: world where
  "demo_after_patients =
     snd (for_range (runProcessor_file demo_tight (NewGovernor (environ demo_world)) ''out'')
            [''in/patients.json'']
            (demo_world\<lparr>calls := calls demo_world @ [GlobCall (Join [''in'', ''*.json''])]\<rparr>))"

section \<open>Properties\<close>

declare Join.simps [simp del]

subsection \<open>The environment\<close>

lemma Getenv_Setenv_other:
  "key \<noteq> key' \<Longrightarrow> Getenv (snd (Setenv env key val)) key' = Getenv env key'"
  by (simp add: Getenv_def Setenv_def)

lemma Setenv_run_id:
  "CHR 0x00 \<notin> set val \<Longrightarrow>
   snd (Setenv env ''EXECUTION_RUN_ID'' val) = env(''EXECUTION_RUN_ID'' \<mapsto> val)"
  by (simp add: Setenv_def)


subsection \<open>Calls and documents\<close>

lemma invoked_append: "invoked (xs @ ys) = invoked xs @ invoked ys"
  by (induction xs rule: invoked.induct) simp_all

lemma created_append: "created (xs @ ys) = created xs @ created ys"
  by (induction xs rule: created.induct) simp_all

lemma SetFont_Helvetica_B:
  "docErr pdf = None \<Longrightarrow> sz \<noteq> 0 \<Longrightarrow>
   SetFont ''Helvetica'' ''B'' sz pdf =
     pdf\<lparr>font := \<lparr>family = ''helvetica'', style = ''B'', size = sz\<rparr>\<rparr>"
  by (simp add: SetFont_def Let_def toLower_def toUpper_def coreFont_def)

lemma SetFont_Helvetica:
  "docErr pdf = None \<Longrightarrow> sz \<noteq> 0 \<Longrightarrow>
   SetFont ''Helvetica'' [] sz pdf =
     pdf\<lparr>font := \<lparr>family = ''helvetica'', style = [], size = sz\<rparr>\<rparr>"
  by (simp add: SetFont_def Let_def toLower_def coreFont_def)

lemma document_eq:
  "document split title body stamp =
     MultiCell split 0 (mm 6) body
       \<lparr>orientation = ''P'', unit = ''mm'', pageSize = ''A4'', fontDir = [],
        docErr = None, pageHeight = 21384006, tMargin = 720090,
        autoPageBreak = True, pageBreakTrigger = 19944006,
        pages =
          [Cell \<lparr>family = ''helvetica'', style = ''B'', size = 18\<rparr> (0, 0, 0) 720090 (mm 12)
             (''Dataset Summary: '' @ title),
           Cell \<lparr>family = ''helvetica'', style = [], size = 9\<rparr> (128, 128, 128) 1872090 (mm 5)
             (''Generated '' @ stamp @ '' by Pennsieve LLM Summarizer''),
           Rule (200, 200, 200) (mm 10) 2664090 (mm 200) 2664090] # [],
        curY = 3096090, lasth = mm 5,
        font = \<lparr>family = ''helvetica'', style = [], size = 11\<rparr>,
        textColor = (0, 0, 0), drawColor = (200, 200, 200)\<rparr>"
  unfolding document_def Let_def
  by (simp add: Let_def New_def SetAutoPageBreak_def AddPage_def SetFont_Helvetica_B
      SetFont_Helvetica CellFormat_def draw_def mm_def Ln_def SetTextColor_def
      SetDrawColor_def Line_def GetY_def)

lemma map_filter_app: "List.map_filter f (xs @ ys) = List.map_filter f xs @ List.map_filter f ys"
  by (induction xs) (simp_all add: List.map_filter_simps split: option.splits)

lemma texts_cells: "texts ps = map (\<lambda>(f, c, txt). txt) (cells ps)"
proof -
  have "List.map_filter shown es = map (\<lambda>(f, c, txt). txt) (List.map_filter printed es)" for es
  proof (induction es)
    case Nil
    then show ?case by (simp add: List.map_filter_simps)
  next
    case (Cons e es)
    then show ?case by (cases e) (simp_all add: List.map_filter_simps)
  qed
  then show ?thesis by (simp add: texts_def cells_def)
qed

lemma draw_pages:
  "pages pdf \<noteq> [] \<Longrightarrow>
   pages (draw e pdf) \<noteq> [] \<and>
   (\<exists>more. hd (pages (draw e pdf)) = hd (pages pdf) @ more) \<and>
   concat (pages (draw e pdf)) = concat (pages pdf) @ [e]"
  by (cases "pages pdf" rule: rev_cases) (auto simp: draw_def hd_append)

lemma draw_fields:
  "docErr (draw e pdf) = docErr pdf" "font (draw e pdf) = font pdf"
  "textColor (draw e pdf) = textColor pdf" "curY (draw e pdf) = curY pdf"
  by (simp_all add: draw_def)

lemma CellFormat_ready:
  assumes "docErr pdf = None" and "family (font pdf) \<noteq> []" and "pages pdf \<noteq> []"
  shows "docErr (CellFormat w h line ln pdf) = None \<and>
         font (CellFormat w h line ln pdf) = font pdf \<and>
         textColor (CellFormat w h line ln pdf) = textColor pdf \<and>
         pages (CellFormat w h line ln pdf) \<noteq> [] \<and>
         (\<exists>more. hd (pages (CellFormat w h line ln pdf)) = hd (pages pdf) @ more) \<and>
         cells (pages (CellFormat w h line ln pdf)) =
           cells (pages pdf) @ (if line = [] then [] else [(font pdf, textColor pdf, line)])"
proof -
  define p1 where "p1 = (if curY pdf + h > pageBreakTrigger pdf \<and> autoPageBreak pdf
                      then AddPage pdf else pdf)"
  have p1: "docErr p1 = None" "font p1 = font pdf" "textColor p1 = textColor pdf"
    "pages p1 \<noteq> []" "hd (pages p1) = hd (pages pdf)" "concat (pages p1) = concat (pages pdf)"
    using assms by (simp_all add: p1_def AddPage_def)
  define p2 where "p2 = (if line \<noteq> []
                      then draw (Cell (font p1) (textColor p1) (curY p1) h line) p1 else p1)"
  have p2: "docErr p2 = None" "font p2 = font pdf" "textColor p2 = textColor pdf"
    "pages p2 \<noteq> []" "\<exists>more. hd (pages p2) = hd (pages pdf) @ more"
    "cells (pages p2) = cells (pages pdf) @ (if line = [] then [] else [(font pdf, textColor pdf, line)])"
    using p1 draw_pages [OF p1(4), of "Cell (font p1) (textColor p1) (curY p1) h line"]
    by (auto simp: p2_def draw_fields cells_def map_filter_app List.map_filter_simps)
  have "CellFormat w h line ln pdf =
          (if ln > 0 then p2\<lparr>lasth := h, curY := curY p2 + h\<rparr> else p2\<lparr>lasth := h\<rparr>)"
    using assms(1,2) by (simp add: CellFormat_def Let_def p1_def p2_def)
  with p2 show ?thesis by simp
qed

lemma print_lines:
  assumes "docErr pdf = None" and "family (font pdf) \<noteq> []" and "pages pdf \<noteq> []"
  shows "docErr (foldl (\<lambda>pdf line. CellFormat w h line ln pdf) pdf ls) = None \<and>
         pages (foldl (\<lambda>pdf line. CellFormat w h line ln pdf) pdf ls) \<noteq> [] \<and>
         (\<exists>more. hd (pages (foldl (\<lambda>pdf line. CellFormat w h line ln pdf) pdf ls)) =
                   hd (pages pdf) @ more) \<and>
         cells (pages (foldl (\<lambda>pdf line. CellFormat w h line ln pdf) pdf ls)) =
           cells (pages pdf) @
           map (\<lambda>line. (font pdf, textColor pdf, line)) (filter (\<lambda>line. line \<noteq> []) ls)"
  using assms
proof (induction ls arbitrary: pdf)
  case Nil
  then show ?case by simp
next
  case (Cons l ls)
  note r = CellFormat_ready [OF Cons.prems, of w h l ln]
  have f: "family (font (CellFormat w h l ln pdf)) \<noteq> []"
    using r Cons.prems(2) by simp
  note ih = Cons.IH [OF r [THEN conjunct1] f r [THEN conjunct2, THEN conjunct2, THEN conjunct2, THEN conjunct1]]
  from r obtain m1 where m1: "hd (pages (CellFormat w h l ln pdf)) = hd (pages pdf) @ m1" by blast
  from ih obtain m2 where m2:
    "hd (pages (foldl (\<lambda>pdf line. CellFormat w h line ln pdf) (CellFormat w h l ln pdf) ls)) =
       hd (pages (CellFormat w h l ln pdf)) @ m2" by blast
  have "\<exists>more. hd (pages (foldl (\<lambda>pdf line. CellFormat w h line ln pdf) (CellFormat w h l ln pdf) ls)) =
       hd (pages pdf) @ more"
    using m1 m2 by simp
  with ih r show ?case by simp
qed

lemma document_ready:
  "docErr (document split title body stamp) = None \<and>
   pages (document split title body stamp) \<noteq> [] \<and>
   take 3 (hd (pages (document split title body stamp))) =
     [Cell \<lparr>family = ''helvetica'', style = ''B'', size = 18\<rparr> (0, 0, 0) 720090 (mm 12)
        (''Dataset Summary: '' @ title),
      Cell \<lparr>family = ''helvetica'', style = [], size = 9\<rparr> (128, 128, 128) 1872090 (mm 5)
        (''Generated '' @ stamp @ '' by Pennsieve LLM Summarizer''),
      Rule (200, 200, 200) (mm 10) 2664090 (mm 200) 2664090] \<and>
   cells (pages (document split title body stamp)) =
     (\<lparr>family = ''helvetica'', style = ''B'', size = 18\<rparr>, (0, 0, 0),
      ''Dataset Summary: '' @ title) #
     (\<lparr>family = ''helvetica'', style = [], size = 9\<rparr>, (128, 128, 128),
      ''Generated '' @ stamp @ '' by Pennsieve LLM Summarizer'') #
     map (\<lambda>line. (\<lparr>family = ''helvetica'', style = [], size = 11\<rparr>, (0, 0, 0), line))
       (filter (\<lambda>line. line \<noteq> [])
          (split \<lparr>family = ''helvetica'', style = [], size = 11\<rparr> body))"
proof -
  let ?h = "\<lparr>orientation = ''P'', unit = ''mm'', pageSize = ''A4'', fontDir = [],
        docErr = None, pageHeight = 21384006, tMargin = 720090,
        autoPageBreak = True, pageBreakTrigger = 19944006,
        pages =
          [Cell \<lparr>family = ''helvetica'', style = ''B'', size = 18\<rparr> (0, 0, 0) 720090 (mm 12)
             (''Dataset Summary: '' @ title),
           Cell \<lparr>family = ''helvetica'', style = [], size = 9\<rparr> (128, 128, 128) 1872090 (mm 5)
             (''Generated '' @ stamp @ '' by Pennsieve LLM Summarizer''),
           Rule (200, 200, 200) (mm 10) 2664090 (mm 200) 2664090] # [],
        curY = 3096090, lasth = mm 5,
        font = \<lparr>family = ''helvetica'', style = [], size = 11\<rparr>,
        textColor = (0, 0, 0), drawColor = (200, 200, 200)\<rparr>"
  have h: "docErr ?h = None" "family (font ?h) \<noteq> []" "pages ?h \<noteq> []" by simp_all
  have c: "cells (pages ?h) =
     [(\<lparr>family = ''helvetica'', style = ''B'', size = 18\<rparr>, (0, 0, 0),
       ''Dataset Summary: '' @ title),
      (\<lparr>family = ''helvetica'', style = [], size = 9\<rparr>, (128, 128, 128),
       ''Generated '' @ stamp @ '' by Pennsieve LLM Summarizer'')]"
    by (simp add: cells_def List.map_filter_simps)
  have d: "document split title body stamp =
     foldl (\<lambda>pdf line. CellFormat 0 (mm 6) line 2 pdf) ?h (split (font ?h) body)"
    by (simp only: document_eq MultiCell_def)
  note p = print_lines [OF h, of 0 "mm 6" 2 "split (font ?h) body", folded d]
  from p obtain more where "hd (pages (document split title body stamp)) = hd (pages ?h) @ more"
    by blast
  then have "take 3 (hd (pages (document split title body stamp))) = hd (pages ?h)" by simp
  with p c show ?thesis by simp
qed

lemma generatePDF_eq:
  "generatePDF X path title body w =
     (case Create X path
             (w\<lparr>calls := calls w @
                [CreateCall path (document (SplitText X) title body (Now X (calls w)))]\<rparr>) of
        (Some e, w1) \<Rightarrow> (Some e, w1)
      | (None, w1) \<Rightarrow>
          (case WriteTo X (calls w1) path
                  (Output X (pages (document (SplitText X) title body (Now X (calls w))))) of
             Some (n, e) \<Rightarrow>
               (Some e,
                put path
                  (Bytes (take n (Output X
                     (pages (document (SplitText X) title body (Now X (calls w)))))))
                  w1)
           | None \<Rightarrow>
               (None,
                put path (Report (pages (document (SplitText X) title body (Now X (calls w)))))
                  w1)))"
proof -
  have "docErr (document (SplitText X) title body (Now X (calls w))) = None"
    and "pages (document (SplitText X) title body (Now X (calls w))) \<noteq> []"
    using document_ready [of "SplitText X" title body "Now X (calls w)"] by blast+
  then show ?thesis
    by (simp add: generatePDF_def OutputFileAndClose_def Let_def
        split: prod.splits option.splits)
qed


subsection \<open>Evaluating the installation\<close>

lemmas path_eval = Join.simps Clean_def Let_def clean_step_def IsPathSeparator_def
  Base_def Ext_def TrimSuffix_def HasSuffix_def strip_trailing_def last_element_def

lemmas demo_eval = demo_def demo_tight_def demoGlob_def demo_world_def demo_event_def
  demo_world_mixed_def demo_world_lambda_def demo_world_ungoverned_def
  demoAnswer_def demoBudget_def Getenv_def NewGovernor_def Available_def regular_def
  demo_masked_def demo_full_def

lemmas run_eval = runProcessor_def runProcessor_file_def generatePDF_eq main_def
  handleLambda_def main_embedded_def embedded_file_def invokeFatal_def ReadFile_def
  Create_def put_def masksOwnerWrite_def

subsection \<open>Paths\<close>

lemma path_elems_nonempty [simp]: "path_elems p \<noteq> []"
  by (induction p) (auto split: list.splits)

lemma path_elems_plain: "CHR ''/'' \<notin> set e \<Longrightarrow> path_elems e = [e]"
  by (induction e) (auto simp: IsPathSeparator_def split: list.splits)

lemma path_elems_suffix:
  assumes "CHR ''/'' \<notin> set e"
  shows "path_elems (a @ e) = butlast (path_elems a) @ [last (path_elems a) @ e]"
proof (induction a)
  case Nil
  then show ?case by (simp add: path_elems_plain assms)
next
  case (Cons c a)
  obtain ys y where pa: "path_elems a = ys @ [y]"
    by (metis path_elems_nonempty rev_exhaust)
  with Cons have "path_elems (a @ e) = ys @ [y @ e]" by simp
  with pa show ?case by (cases ys) (auto split: list.splits)
qed

lemma path_elems_slash:
  "path_elems (a @ CHR ''/'' # b) = path_elems a @ path_elems b"
proof (induction a)
  case Nil
  then show ?case by (simp add: IsPathSeparator_def)
next
  case (Cons c a)
  obtain y ys where "path_elems a = y # ys"
    by (cases "path_elems a") simp_all
  with Cons show ?case by simp
qed

lemma clean_step_normal: "e \<noteq> [] \<Longrightarrow> e \<noteq> ''.'' \<Longrightarrow> e \<noteq> ''..'' \<Longrightarrow> clean_step rooted out e = e # out"
  by (simp add: clean_step_def)

lemma join_sep_snoc: "join_sep (xs @ [e]) = (if xs = [] then e else join_sep xs @ ''/'' @ e)"
  by (induction xs rule: join_sep.induct) auto

lemma Clean_last_elem:
  assumes "path \<noteq> []" and "last (path_elems path) = e"
    and "e \<noteq> []" and "e \<noteq> ''.''" and "e \<noteq> ''..''"
  shows "Clean path = clean_dir path @ e"
proof -
  have pe: "path_elems path = butlast (path_elems path) @ [e]"
    using assms(2) by (metis append_butlast_last_id path_elems_nonempty)
  have "foldl (clean_step r) [] (path_elems path) =
          e # foldl (clean_step r) [] (butlast (path_elems path))" for r
    by (subst pe) (simp add: clean_step_normal assms)
  then show ?thesis
    using assms(1,3) by (simp add: Clean_def clean_dir_def Let_def join_sep_snoc)
qed

lemma clean_dir_append:
  "d \<noteq> [] \<Longrightarrow> e \<noteq> [] \<Longrightarrow> CHR ''/'' \<notin> set e \<Longrightarrow>
   clean_dir (d @ CHR ''/'' # e) = clean_dir (d @ ''/'')"
  by (simp add: clean_dir_def path_elems_slash path_elems_plain)

lemma clean_dir_shape: "clean_dir p = [] \<or> last (clean_dir p) = CHR ''/''"
  by (simp add: clean_dir_def Let_def)

lemma Join_two: "d \<noteq> [] \<Longrightarrow> Join [d, n] = Clean (d @ CHR ''/'' # n)"
  by (simp add: Join.simps)

lemma Join_two_empty: "n \<noteq> [] \<Longrightarrow> Join ([] # [n]) = Clean n"
  by (simp add: Join.simps)

lemma Join_plain:
  assumes "d \<noteq> []" and "CHR ''/'' \<notin> set e" and "e \<noteq> []" and "e \<noteq> ''.''" and "e \<noteq> ''..''"
  shows "Join [d, e] = clean_dir (d @ ''/'') @ e"
proof -
  have "last (path_elems (d @ CHR ''/'' # e)) = e"
    using assms(2) by (simp add: path_elems_slash path_elems_plain)
  then have "Clean (d @ CHR ''/'' # e) = clean_dir (d @ CHR ''/'' # e) @ e"
    using assms by (intro Clean_last_elem) auto
  then show ?thesis
    using assms by (simp add: Join_two clean_dir_append)
qed

lemma Clean_keeps_suffix:
  assumes "s \<noteq> []" and "CHR ''/'' \<notin> set s" and "length s > 2"
  shows "\<exists>q. Clean (p @ s) = q @ s"
proof -
  have pe: "last (path_elems (p @ s)) = last (path_elems p) @ s"
    using assms(2) by (simp add: path_elems_suffix)
  have ne: "last (path_elems p) @ s \<noteq> []" "last (path_elems p) @ s \<noteq> ''.''"
    "last (path_elems p) @ s \<noteq> ''..''"
    using assms(1,3) by (auto dest: arg_cong [where f = length])
  have "Clean (p @ s) = clean_dir (p @ s) @ last (path_elems p) @ s"
    using Clean_last_elem [OF _ pe ne] assms(1) by simp
  then show ?thesis by (metis append.assoc)
qed

lemma Join_keeps_suffix:
  assumes "s \<noteq> []" and "CHR ''/'' \<notin> set s" and "length s > 2"
  shows "\<exists>q. Join [d, b @ s] = q @ s"
proof (cases "d = []")
  case True
  then show ?thesis
    using Clean_keeps_suffix [OF assms, of b] assms(1) by (simp add: Join_two_empty)
next
  case False
  then show ?thesis
    using Clean_keeps_suffix [OF assms, of "d @ CHR ''/'' # b"] by (simp add: Join_two)
qed

lemma pdfPath_suffix: "\<exists>q. Join [outputDir, baseName @ ''-summary.pdf''] = q @ ''-summary.pdf''"
  by (rule Join_keeps_suffix) simp_all

lemma json_is_no_pdfPath:
  assumes "HasSuffix jsonFile ''.json''"
  shows "Join [outputDir, baseName @ ''-summary.pdf''] \<noteq> jsonFile"
proof
  assume eq: "Join [outputDir, baseName @ ''-summary.pdf''] = jsonFile"
  obtain q where "jsonFile = q @ ''-summary.pdf''"
    using pdfPath_suffix [of outputDir baseName] eq by auto
  then have "last jsonFile = CHR ''f''" by simp
  moreover have "drop (length jsonFile - length ''.json'') jsonFile = ''.json''"
    using assms unfolding HasSuffix_def by blast
  then obtain p where "jsonFile = p @ ''.json''"
    by (metis append_take_drop_id)
  then have "last jsonFile = CHR ''n''" by simp
  ultimately show False by simp
qed

lemma last_element_plain:
  assumes "q = [] \<or> last q = CHR ''/''" and "CHR ''/'' \<notin> set e"
  shows "last_element (q @ e) = e"
proof -
  have "takeWhile (\<lambda>c. \<not> IsPathSeparator c) (rev e @ rev q) = rev e"
  proof (cases q rule: rev_cases)
    case Nil
    then show ?thesis using assms(2) by (auto simp: IsPathSeparator_def)
  next
    case (snoc ys y)
    with assms(1) have "y = CHR ''/''" by simp
    with snoc show ?thesis
      using assms(2) by (auto simp: takeWhile_tail IsPathSeparator_def)
  qed
  then show ?thesis by (simp add: last_element_def)
qed

lemma strip_trailing_plain:
  "e \<noteq> [] \<Longrightarrow> CHR ''/'' \<notin> set e \<Longrightarrow> strip_trailing (q @ e) = q @ e"
  by (cases e rule: rev_cases) (auto simp: strip_trailing_def IsPathSeparator_def)

lemma Base_plain:
  assumes "q = [] \<or> last q = CHR ''/''" and "CHR ''/'' \<notin> set e" and "e \<noteq> []"
  shows "Base (q @ e) = e"
  using assms by (simp add: Base_def strip_trailing_plain last_element_plain)

lemma ext_scan_stop:
  assumes "ys = [] \<or> hd ys = CHR ''/''" and "CHR ''/'' \<notin> set xs"
  shows "ext_scan (xs @ ys) seen = ext_scan xs seen"
  using assms
proof (induction xs arbitrary: seen)
  case Nil
  then show ?case by (cases ys) (auto simp: IsPathSeparator_def)
next
  case (Cons x xs)
  then show ?case by (simp add: IsPathSeparator_def)
qed

lemma Ext_plain:
  assumes "q = [] \<or> last q = CHR ''/''" and "CHR ''/'' \<notin> set e"
  shows "Ext (q @ e) = Ext e"
proof -
  have "rev q = [] \<or> hd (rev q) = CHR ''/''"
    using assms(1) by (auto simp: hd_rev)
  then show ?thesis
    using assms(2) by (simp add: Ext_def ext_scan_stop)
qed

lemma Ext_json: "Ext (x @ ''.json'') = ''.json''"
  by (simp add: Ext_def IsPathSeparator_def)

lemma TrimSuffix_append: "TrimSuffix (x @ s) s = x"
  by (simp add: TrimSuffix_def HasSuffix_def)

lemma stem_of_listed:
  assumes "inputDir \<noteq> []" and "CHR ''/'' \<notin> set x"
  shows "TrimSuffix (Base (Join [inputDir, x @ ''.json''])) (Ext (Join [inputDir, x @ ''.json''])) = x"
proof -
  have e: "CHR ''/'' \<notin> set (x @ ''.json'')" "x @ ''.json'' \<noteq> []" "x @ ''.json'' \<noteq> ''.''"
    "x @ ''.json'' \<noteq> ''..''"
    using assms(2) by (auto dest: arg_cong [where f = length])
  have j: "Join [inputDir, x @ ''.json''] = clean_dir (inputDir @ ''/'') @ (x @ ''.json'')"
    using assms(1) e by (intro Join_plain)
  have b: "Base (clean_dir (inputDir @ ''/'') @ (x @ ''.json'')) = x @ ''.json''"
    using clean_dir_shape e(1,2) by (rule Base_plain)
  have x: "Ext (clean_dir (inputDir @ ''/'') @ (x @ ''.json'')) = Ext (x @ ''.json'')"
    using clean_dir_shape e(1) by (rule Ext_plain)
  show ?thesis
    unfolding j b x by (simp only: Ext_json TrimSuffix_append)
qed

lemma listed_pdfPath:
  assumes "inputDir \<noteq> []" and "CHR ''/'' \<notin> set x"
  shows "pdfPathOf outputDir (Join [inputDir, x @ ''.json'']) = Join [outputDir, x @ ''-summary.pdf'']"
  using stem_of_listed [OF assms] by simp

lemma pdfPath_inj:
  assumes "outputDir \<noteq> []" and "CHR ''/'' \<notin> set x" and "CHR ''/'' \<notin> set y"
    and "Join [outputDir, x @ ''-summary.pdf''] = Join [outputDir, y @ ''-summary.pdf'']"
  shows "x = y"
proof -
  have "Join [outputDir, z @ ''-summary.pdf''] = clean_dir (outputDir @ ''/'') @ z @ ''-summary.pdf''"
    if "CHR ''/'' \<notin> set z" for z
    using assms(1) that by (subst Join_plain) (auto dest: arg_cong [where f = length])
  with assms show ?thesis by simp
qed

subsection \<open>Creating and writing a report\<close>

lemma Create_cases:
  obtains
    (refused) e where "Create X name w = (Some e, w)"
      "files w name = None \<or> (\<exists>f. files w name = Some f \<and> readonly f \<and> \<not> Root X)"
  | (opened) g where "Create X name w = (None, w\<lparr>files := (files w)(name \<mapsto> g)\<rparr>)"
      "contents g = Bytes []"
      "readonly g = (case files w name of Some f \<Rightarrow> readonly f | None \<Rightarrow> masksOwnerWrite (Umask X))"
      "files w name = None \<or> Root X \<or> \<not> readonly g"
proof (cases "files w name")
  case None
  then show ?thesis
    by (cases "Mkfile X (calls w) name")
      (auto simp: Create_def intro: refused opened [where g = "\<lparr>contents = Bytes [], readonly = masksOwnerWrite (Umask X)\<rparr>"])
next
  case (Some f)
  then show ?thesis
    by (cases "readonly f \<and> \<not> Root X")
      (auto simp: Create_def intro: refused opened [where g = "f\<lparr>contents := Bytes []\<rparr>"])
qed

lemma generatePDF_cases:
  obtains
    (failed) err w' where
      "generatePDF X path title body w = (Some err, w')"
      "calls w' = calls w @ [CreateCall path (document (SplitText X) title body (Now X (calls w)))]"
      "environ w' = environ w"
      "\<And>p. p \<noteq> path \<Longrightarrow> files w' p = files w p"
  | (written) f where
      "generatePDF X path title body w =
         (None, w\<lparr>calls := calls w @
                     [CreateCall path (document (SplitText X) title body (Now X (calls w)))],
                   files := (files w)(path \<mapsto> f)\<rparr>)"
      "contents f = Report (pages (document (SplitText X) title body (Now X (calls w))))"
      "readonly f = (case files w path of Some f \<Rightarrow> readonly f | None \<Rightarrow> masksOwnerWrite (Umask X))"
      "files w path = None \<or> Root X \<or> \<not> readonly f"
proof -
  let ?d = "document (SplitText X) title body (Now X (calls w))"
  let ?w0 = "w\<lparr>calls := calls w @ [CreateCall path ?d]\<rparr>"
  show ?thesis
  proof (cases rule: Create_cases [of X path ?w0])
    case (refused e)
    from refused(1) show ?thesis
      by (intro failed [where w' = ?w0 and err = e]) (simp_all add: generatePDF_eq)
  next
    case (opened g)
    let ?w1 = "?w0\<lparr>files := (files ?w0)(path \<mapsto> g)\<rparr>"
    show ?thesis
    proof (cases "WriteTo X (calls ?w1) path (Output X (pages ?d))")
      case None
      with opened show ?thesis
        by (intro written [where f = "g\<lparr>contents := Report (pages ?d)\<rparr>"])
          (simp_all add: generatePDF_eq put_def)
    next
      case (Some ne)
      obtain n e where "ne = (n, e)" by (cases ne)
      with Some opened show ?thesis
        by (intro failed [where err = e and
              w' = "?w0\<lparr>files := (files ?w0)(path \<mapsto> g\<lparr>contents := Bytes (take n (Output X (pages ?d)))\<rparr>)\<rparr>"])
          (simp_all add: generatePDF_eq put_def)
    qed
  qed
qed

subsection \<open>The loop, one file, one run\<close>

lemma for_range_append:
  "for_range body (pre @ post) w =
     (case for_range body pre w of
        (Fatal f, w') \<Rightarrow> (Fatal f, w')
      | (Complete, w') \<Rightarrow> for_range body post w')"
  by (induction pre arbitrary: w) (auto split: prod.splits outcome.splits)

lemma runProcessor_file_cases:
  obtains
    (unreadable) "ReadFile X (files w) jsonFile = None"
      "runProcessor_file X gov outputDir jsonFile w =
         (Fatal (ReadFailed jsonFile), w\<lparr>calls := calls w @ [ReadFileCall jsonFile]\<rparr>)"
  | (invalid) data err where "ReadFile X (files w) jsonFile = Some data"
      "Unmarshal X data = Inl err"
      "runProcessor_file X gov outputDir jsonFile w =
         (Fatal (InvalidJSON jsonFile err), w\<lparr>calls := calls w @ [ReadFileCall jsonFile]\<rparr>)"
  | (refused) data parsed err where "ReadFile X (files w) jsonFile = Some data"
      "Unmarshal X data = Inr parsed"
      "Invoke X (calls w @ [ReadFileCall jsonFile]) gov
         (documentRequest X (baseNameOf jsonFile) (EncodeToString data)) = Inl err"
      "runProcessor_file X gov outputDir jsonFile w =
         (Fatal (invokeFatal err),
          w\<lparr>calls := calls w @
             [ReadFileCall jsonFile,
              InvokeCall gov (documentRequest X (baseNameOf jsonFile) (EncodeToString data))]\<rparr>)"
  | (unwritten) data parsed resp err doc w' where
      "ReadFile X (files w) jsonFile = Some data" "Unmarshal X data = Inr parsed"
      "Invoke X (calls w @ [ReadFileCall jsonFile]) gov
         (documentRequest X (baseNameOf jsonFile) (EncodeToString data)) = Inr resp"
      "runProcessor_file X gov outputDir jsonFile w = (Fatal (PDFFailed err), w')"
      "calls w' = calls w @
             [ReadFileCall jsonFile,
              InvokeCall gov (documentRequest X (baseNameOf jsonFile) (EncodeToString data)),
              CreateCall (pdfPathOf outputDir jsonFile) doc]"
      "environ w' = environ w"
      "\<And>p. p \<noteq> pdfPathOf outputDir jsonFile \<Longrightarrow> files w' p = files w p"
  | (written) data parsed resp doc f where
      "ReadFile X (files w) jsonFile = Some data" "Unmarshal X data = Inr parsed"
      "Invoke X (calls w @ [ReadFileCall jsonFile]) gov
         (documentRequest X (baseNameOf jsonFile) (EncodeToString data)) = Inr resp"
      "contents f = Report (pages doc)"
      "doc = document (SplitText X) (baseNameOf jsonFile) (Text resp)
               (Now X (calls w @
                  [ReadFileCall jsonFile,
                   InvokeCall gov (documentRequest X (baseNameOf jsonFile) (EncodeToString data))]))"
      "runProcessor_file X gov outputDir jsonFile w =
         (Complete,
          w\<lparr>calls := calls w @
             [ReadFileCall jsonFile,
              InvokeCall gov (documentRequest X (baseNameOf jsonFile) (EncodeToString data)),
              CreateCall (pdfPathOf outputDir jsonFile) doc],
            files := (files w)(pdfPathOf outputDir jsonFile \<mapsto> f)\<rparr>)"
proof (cases "ReadFile X (files w) jsonFile")
  case None
  then show ?thesis by (intro unreadable) (simp_all add: runProcessor_file_def)
next
  case (Some data)
  show ?thesis
  proof (cases "Unmarshal X data")
    case (Inl err)
    with Some show ?thesis by (intro invalid) (simp_all add: runProcessor_file_def)
  next
    case (Inr parsed)
    let ?req = "documentRequest X (baseNameOf jsonFile) (EncodeToString data)"
    show ?thesis
    proof (cases "Invoke X (calls w @ [ReadFileCall jsonFile]) gov ?req")
      case (Inl err)
      with Some Inr show ?thesis
        by (intro refused) (simp_all add: runProcessor_file_def Let_def)
    next
      case resp: (Inr resp)
      let ?w2 = "w\<lparr>calls := calls w @ [ReadFileCall jsonFile, InvokeCall gov ?req]\<rparr>"
      have run: "runProcessor_file X gov outputDir jsonFile w =
          (case generatePDF X (pdfPathOf outputDir jsonFile) (baseNameOf jsonFile) (Text resp) ?w2 of
             (Some err, w3) \<Rightarrow> (Fatal (PDFFailed err), w3)
           | (None, w3) \<Rightarrow> (Complete, w3))"
        using Some Inr resp by (simp add: runProcessor_file_def Let_def)
      show ?thesis
      proof (cases rule: generatePDF_cases
          [of X "pdfPathOf outputDir jsonFile" "baseNameOf jsonFile" "Text resp" ?w2])
        case (failed err w')
        with Some Inr resp show ?thesis
          by (intro unwritten [where w' = w' and err = err]) (simp_all add: run)
      next
        case pdf: (written f)
        with Some Inr resp show ?thesis
          by (intro written [where f = f]) (simp_all add: run)
      qed
    qed
  qed
qed

lemma embedded_file_cases:
  obtains
    (unreadable) "ReadFile X (files w) jsonFile = None"
      "embedded_file X gov outputDir jsonFile w =
         (Fatal (ReadFailed jsonFile), w\<lparr>calls := calls w @ [ReadFileCall jsonFile]\<rparr>)"
  | (invalid) data err where "ReadFile X (files w) jsonFile = Some data"
      "Unmarshal X data = Inl err"
      "embedded_file X gov outputDir jsonFile w =
         (Fatal (InvalidJSON jsonFile err), w\<lparr>calls := calls w @ [ReadFileCall jsonFile]\<rparr>)"
  | (unformatted) data parsed err where "ReadFile X (files w) jsonFile = Some data"
      "Unmarshal X data = Inr parsed" "MarshalIndent X parsed = Inl err"
      "embedded_file X gov outputDir jsonFile w =
         (Fatal (FormatFailed err), w\<lparr>calls := calls w @ [ReadFileCall jsonFile]\<rparr>)"
  | (refused) data parsed prettyJSON err where "ReadFile X (files w) jsonFile = Some data"
      "Unmarshal X data = Inr parsed" "MarshalIndent X parsed = Inr prettyJSON"
      "Invoke X (calls w @ [ReadFileCall jsonFile]) gov
         (embeddedRequest X (embeddedPrompt @ prettyJSON)) = Inl err"
      "embedded_file X gov outputDir jsonFile w =
         (Fatal (invokeFatal err),
          w\<lparr>calls := calls w @
             [ReadFileCall jsonFile,
              InvokeCall gov (embeddedRequest X (embeddedPrompt @ prettyJSON))]\<rparr>)"
  | (unwritten) data parsed prettyJSON resp err doc w' where
      "ReadFile X (files w) jsonFile = Some data"
      "Unmarshal X data = Inr parsed" "MarshalIndent X parsed = Inr prettyJSON"
      "Invoke X (calls w @ [ReadFileCall jsonFile]) gov
         (embeddedRequest X (embeddedPrompt @ prettyJSON)) = Inr resp"
      "embedded_file X gov outputDir jsonFile w = (Fatal (PDFFailed err), w')"
      "calls w' = calls w @
             [ReadFileCall jsonFile,
              InvokeCall gov (embeddedRequest X (embeddedPrompt @ prettyJSON)),
              CreateCall (pdfPathOf outputDir jsonFile) doc]"
      "environ w' = environ w"
      "\<And>p. p \<noteq> pdfPathOf outputDir jsonFile \<Longrightarrow> files w' p = files w p"
  | (written) data parsed prettyJSON resp doc f where
      "ReadFile X (files w) jsonFile = Some data"
      "Unmarshal X data = Inr parsed" "MarshalIndent X parsed = Inr prettyJSON"
      "Invoke X (calls w @ [ReadFileCall jsonFile]) gov
         (embeddedRequest X (embeddedPrompt @ prettyJSON)) = Inr resp"
      "contents f = Report (pages doc)"
      "embedded_file X gov outputDir jsonFile w =
         (Complete,
          w\<lparr>calls := calls w @
             [ReadFileCall jsonFile,
              InvokeCall gov (embeddedRequest X (embeddedPrompt @ prettyJSON)),
              CreateCall (pdfPathOf outputDir jsonFile) doc],
            files := (files w)(pdfPathOf outputDir jsonFile \<mapsto> f)\<rparr>)"
proof (cases "ReadFile X (files w) jsonFile")
  case None
  then show ?thesis by (intro unreadable) (simp_all add: embedded_file_def)
next
  case (Some data)
  show ?thesis
  proof (cases "Unmarshal X data")
    case (Inl err)
    with Some show ?thesis by (intro invalid) (simp_all add: embedded_file_def)
  next
    case (Inr parsed)
    show ?thesis
    proof (cases "MarshalIndent X parsed")
      case (Inl err)
      with Some Inr show ?thesis by (intro unformatted) (simp_all add: embedded_file_def)
    next
      case pretty: (Inr prettyJSON)
      let ?req = "embeddedRequest X (embeddedPrompt @ prettyJSON)"
      show ?thesis
      proof (cases "Invoke X (calls w @ [ReadFileCall jsonFile]) gov ?req")
        case (Inl err)
        with Some Inr pretty show ?thesis
          by (intro refused) (simp_all add: embedded_file_def Let_def)
      next
        case resp: (Inr resp)
        let ?w2 = "w\<lparr>calls := calls w @ [ReadFileCall jsonFile, InvokeCall gov ?req]\<rparr>"
        have run: "embedded_file X gov outputDir jsonFile w =
            (case generatePDF X (pdfPathOf outputDir jsonFile) (baseNameOf jsonFile) (Text resp) ?w2 of
               (Some err, w3) \<Rightarrow> (Fatal (PDFFailed err), w3)
             | (None, w3) \<Rightarrow> (Complete, w3))"
          using Some Inr pretty resp by (simp add: embedded_file_def Let_def)
        show ?thesis
        proof (cases rule: generatePDF_cases
            [of X "pdfPathOf outputDir jsonFile" "baseNameOf jsonFile" "Text resp" ?w2])
          case (failed err w')
          with Some Inr pretty resp show ?thesis
            by (intro unwritten [where w' = w' and err = err]) (simp_all add: run)
        next
          case pdf: (written f)
          with Some Inr pretty resp show ?thesis
            by (intro written [where f = f]) (simp_all add: run)
        qed
      qed
    qed
  qed
qed

lemma runProcessor_cases:
  obtains
    (dirs) "inputDir = [] \<or> outputDir = []"
      "runProcessor X inputDir outputDir executionRunID w = (Fatal DirsRequired, w)"
  | (unavailable) "\<not> Available (NewGovernor (environ w))"
      "runProcessor X inputDir outputDir executionRunID w = (Fatal GovernorNotAvailable, w)"
  | (unlisted) err where "Glob X (files w) (Join [inputDir, ''*.json'']) = Inl err"
      "runProcessor X inputDir outputDir executionRunID w =
         (Fatal (ListFailed err), w\<lparr>calls := calls w @ [GlobCall (Join [inputDir, ''*.json''])]\<rparr>)"
  | (none) "Glob X (files w) (Join [inputDir, ''*.json'']) = Inr []"
      "runProcessor X inputDir outputDir executionRunID w =
         (Fatal NoJSONFiles, w\<lparr>calls := calls w @ [GlobCall (Join [inputDir, ''*.json''])]\<rparr>)"
  | (listed) jsonFiles where "inputDir \<noteq> []" "outputDir \<noteq> []"
      "Available (NewGovernor (environ w))"
      "Glob X (files w) (Join [inputDir, ''*.json'']) = Inr jsonFiles" "jsonFiles \<noteq> []"
      "runProcessor X inputDir outputDir executionRunID w =
         for_range (runProcessor_file X (NewGovernor (environ w)) outputDir) jsonFiles
           (w\<lparr>calls := calls w @ [GlobCall (Join [inputDir, ''*.json''])]\<rparr>)"
proof (cases "inputDir = [] \<or> outputDir = []")
  case True
  then show ?thesis by (intro dirs) (simp_all add: runProcessor_def)
next
  case d: False
  show ?thesis
  proof (cases "Available (NewGovernor (environ w))")
    case False
    with d show ?thesis by (intro unavailable) (simp_all add: runProcessor_def)
  next
    case a: True
    show ?thesis
    proof (cases "Glob X (files w) (Join [inputDir, ''*.json''])")
      case (Inl err)
      with d a show ?thesis by (intro unlisted) (simp_all add: runProcessor_def Let_def)
    next
      case (Inr jsonFiles)
      show ?thesis
      proof (cases "jsonFiles = []")
        case True
        with d a Inr show ?thesis by (intro none) (simp_all add: runProcessor_def Let_def)
      next
        case False
        with d a Inr show ?thesis by (intro listed) (simp_all add: runProcessor_def Let_def)
      qed
    qed
  qed
qed

lemma main_embedded_cases:
  obtains
    (dirs) "Getenv (environ w) ''INPUT_DIR'' = [] \<or> Getenv (environ w) ''OUTPUT_DIR'' = []"
      "main_embedded X w = (Fatal DirsRequired, w)"
  | (unavailable) "\<not> Available (NewGovernor (environ w))"
      "main_embedded X w = (Fatal GovernorNotAvailable, w)"
  | (unlisted) err where
      "Glob X (files w) (Join [Getenv (environ w) ''INPUT_DIR'', ''*.json'']) = Inl err"
      "main_embedded X w =
         (Fatal (ListFailed err),
          w\<lparr>calls := calls w @ [GlobCall (Join [Getenv (environ w) ''INPUT_DIR'', ''*.json''])]\<rparr>)"
  | (none) "Glob X (files w) (Join [Getenv (environ w) ''INPUT_DIR'', ''*.json'']) = Inr []"
      "main_embedded X w =
         (Fatal NoJSONFiles,
          w\<lparr>calls := calls w @ [GlobCall (Join [Getenv (environ w) ''INPUT_DIR'', ''*.json''])]\<rparr>)"
  | (listed) jsonFiles where
      "Getenv (environ w) ''INPUT_DIR'' \<noteq> []" "Getenv (environ w) ''OUTPUT_DIR'' \<noteq> []"
      "Available (NewGovernor (environ w))"
      "Glob X (files w) (Join [Getenv (environ w) ''INPUT_DIR'', ''*.json'']) = Inr jsonFiles"
      "jsonFiles \<noteq> []"
      "main_embedded X w =
         for_range (embedded_file X (NewGovernor (environ w)) (Getenv (environ w) ''OUTPUT_DIR''))
           jsonFiles
           (w\<lparr>calls := calls w @ [GlobCall (Join [Getenv (environ w) ''INPUT_DIR'', ''*.json''])]\<rparr>)"
proof (cases "Getenv (environ w) ''INPUT_DIR'' = [] \<or> Getenv (environ w) ''OUTPUT_DIR'' = []")
  case True
  then show ?thesis by (intro dirs) (simp_all add: main_embedded_def)
next
  case d: False
  show ?thesis
  proof (cases "Available (NewGovernor (environ w))")
    case False
    with d show ?thesis by (intro unavailable) (simp_all add: main_embedded_def)
  next
    case a: True
    show ?thesis
    proof (cases "Glob X (files w) (Join [Getenv (environ w) ''INPUT_DIR'', ''*.json''])")
      case (Inl err)
      with d a show ?thesis by (intro unlisted) (simp_all add: main_embedded_def Let_def)
    next
      case (Inr jsonFiles)
      show ?thesis
      proof (cases "jsonFiles = []")
        case True
        with d a Inr show ?thesis by (intro none) (simp_all add: main_embedded_def Let_def)
      next
        case False
        with d a Inr show ?thesis by (intro listed) (simp_all add: main_embedded_def Let_def)
      qed
    qed
  qed
qed


subsection \<open>Runs that stop before the listing\<close>

lemma runProcessor_unavailable:
  "\<not> Available (NewGovernor (environ w)) \<Longrightarrow>
   runProcessor X inputDir outputDir executionRunID w =
     (Fatal (if inputDir = [] \<or> outputDir = [] then DirsRequired else GovernorNotAvailable), w)"
  by (simp add: runProcessor_def)

lemma main_embedded_unavailable:
  "\<not> Available (NewGovernor (environ w)) \<Longrightarrow>
   main_embedded X w =
     (Fatal (if Getenv (environ w) ''INPUT_DIR'' = [] \<or> Getenv (environ w) ''OUTPUT_DIR'' = []
             then DirsRequired else GovernorNotAvailable), w)"
  by (simp add: main_embedded_def Let_def)


lemma runProcessor_no_files:
  assumes "Glob X (files w) (Join [inputDir, ''*.json'']) = Inr []"
  shows "runProcessor X inputDir outputDir executionRunID w =
     (if inputDir = [] \<or> outputDir = [] then (Fatal DirsRequired, w)
      else if \<not> Available (NewGovernor (environ w)) then (Fatal GovernorNotAvailable, w)
      else (Fatal NoJSONFiles, w\<lparr>calls := calls w @ [GlobCall (Join [inputDir, ''*.json''])]\<rparr>))"
  using assms by (simp add: runProcessor_def Let_def)


subsection \<open>The environment is read once\<close>

lemma runProcessor_file_environ:
  "runProcessor_file X gov outputDir jsonFile (w\<lparr>environ := env\<rparr>) =
     apsnd (\<lambda>w'. w'\<lparr>environ := env\<rparr>) (runProcessor_file X gov outputDir jsonFile w)"
  by (simp add: runProcessor_file_def Let_def generatePDF_eq Create_def put_def ReadFile_def
      split: option.splits sum.splits prod.splits)

lemma for_range_environ:
  assumes "\<And>x v. body x (v\<lparr>environ := env\<rparr>) = apsnd (\<lambda>w'. w'\<lparr>environ := env\<rparr>) (body x v)"
  shows "for_range body xs (w\<lparr>environ := env\<rparr>) =
           apsnd (\<lambda>w'. w'\<lparr>environ := env\<rparr>) (for_range body xs w)"
proof (induction xs arbitrary: w)
  case Nil
  then show ?case by simp
next
  case (Cons x xs)
  show ?case
  proof (cases "body x w")
    case (Pair r w1)
    then show ?thesis
      using Cons.IH [of w1] by (cases r) (simp_all add: assms)
  qed
qed

lemma runProcessor_environ:
  assumes "NewGovernor env = NewGovernor (environ w)"
  shows "runProcessor X inputDir outputDir executionRunID (w\<lparr>environ := env\<rparr>) =
           apsnd (\<lambda>w'. w'\<lparr>environ := env\<rparr>) (runProcessor X inputDir outputDir executionRunID' w)"
proof -
  have "for_range (runProcessor_file X gov outputDir) xs (w\<lparr>environ := env, calls := c\<rparr>) =
          apsnd (\<lambda>w'. w'\<lparr>environ := env\<rparr>)
            (for_range (runProcessor_file X gov outputDir) xs (w\<lparr>calls := c\<rparr>))"
    for gov xs c
  proof -
    have "w\<lparr>environ := env, calls := c\<rparr> = (w\<lparr>calls := c\<rparr>)\<lparr>environ := env\<rparr>"
      by (cases w) simp
    then show ?thesis
      using for_range_environ [of "runProcessor_file X gov outputDir" env xs "w\<lparr>calls := c\<rparr>"]
      by (simp only: runProcessor_file_environ)
  qed
  then show ?thesis
    using assms by (simp add: runProcessor_def Let_def split: sum.splits)
qed

lemma runProcessor_keeps_environ:
  "environ (snd (runProcessor X inputDir outputDir executionRunID w)) = environ w"
proof -
  have "NewGovernor (environ w) = NewGovernor (environ w)" ..
  from runProcessor_environ [OF this, of X inputDir outputDir executionRunID executionRunID]
  have "environ (snd (runProcessor X inputDir outputDir executionRunID (w\<lparr>environ := environ w\<rparr>))) = environ w"
    by (simp only: snd_apsnd) simp
  then show ?thesis by simp
qed


subsection \<open>What a complete loop has written\<close>

lemma loop_created:
  assumes "for_range (runProcessor_file X gov outputDir) jsonFiles w = (Complete, w')"
  shows "created (calls w') = created (calls w) @ map (pdfPathOf outputDir) jsonFiles \<and>
         (\<forall>jsonFile\<in>set jsonFiles. files w' (pdfPathOf outputDir jsonFile) \<noteq> None) \<and>
         (\<forall>path. files w path \<noteq> None \<longrightarrow> files w' path \<noteq> None) \<and>
         (\<forall>path. path \<notin> pdfPathOf outputDir ` set jsonFiles \<longrightarrow> files w' path = files w path)"
  using assms
proof (induction jsonFiles arbitrary: w)
  case Nil
  then show ?case by simp
next
  case (Cons jsonFile rest)
  show ?case
  proof (cases rule: runProcessor_file_cases
      [where w = w and jsonFile = jsonFile and X = X and gov = gov and outputDir = outputDir])
    case (written data parsed resp doc f)
    let ?w1 = "w\<lparr>calls := calls w @
             [ReadFileCall jsonFile,
              InvokeCall gov (documentRequest X (baseNameOf jsonFile) (EncodeToString data)),
              CreateCall (pdfPathOf outputDir jsonFile) doc],
            files := (files w)(pdfPathOf outputDir jsonFile \<mapsto> f)\<rparr>"
    from Cons.prems written(6)
    have "for_range (runProcessor_file X gov outputDir) rest ?w1 = (Complete, w')" by simp
    from Cons.IH [OF this] show ?thesis
      by (auto simp: created_append)
  qed (use Cons.prems in simp_all)
qed

lemma loop_written:
  assumes "for_range (runProcessor_file X gov outputDir) jsonFiles w = (Complete, w')"
    and "jsonFile \<in> set jsonFiles"
  shows "files w' (pdfPathOf outputDir jsonFile) \<noteq> None"
  using loop_created [OF assms(1)] assms(2) by simp

lemma loop_frame:
  assumes "for_range (runProcessor_file X gov outputDir) jsonFiles w = (Complete, w')"
    and "path \<notin> pdfPathOf outputDir ` set jsonFiles"
  shows "files w' path = files w path"
  using loop_created [OF assms(1)] assms(2) by simp


subsection \<open>A listing with an invalid file\<close>

lemma runProcessor_file_invalid:
  assumes "ReadFile X (files w) jsonFile = Some data" and "Unmarshal X data = Inl err"
  shows "runProcessor_file X gov outputDir jsonFile w =
           (Fatal (InvalidJSON jsonFile err), w\<lparr>calls := calls w @ [ReadFileCall jsonFile]\<rparr>)"
  using assms by (simp add: runProcessor_file_def)

lemma embedded_file_invalid:
  assumes "ReadFile X (files w) jsonFile = Some data" and "Unmarshal X data = Inl err"
  shows "embedded_file X gov outputDir jsonFile w =
           (Fatal (InvalidJSON jsonFile err), w\<lparr>calls := calls w @ [ReadFileCall jsonFile]\<rparr>)"
  using assms by (simp add: embedded_file_def)

lemma stops_at_invalid_iff:
  "stops_at_invalid jsonFile err w result \<longleftrightarrow>
     (\<exists>f evs. fst result = Fatal f \<and> calls (snd result) = calls w @ evs \<and>
        ((f = InvalidJSON jsonFile err \<and> (\<exists>before. evs = before @ [ReadFileCall jsonFile])) \<or>
         ReadFileCall jsonFile \<notin> set evs))"
  (is "?l \<longleftrightarrow> ?r")
proof
  assume ?l
  then obtain f where f: "fst result = Fatal f"
    and t: "take (length (calls w)) (calls (snd result)) = calls w"
    and d: "(f = InvalidJSON jsonFile err \<and> drop (length (calls w)) (calls (snd result)) \<noteq> [] \<and>
              last (drop (length (calls w)) (calls (snd result))) = ReadFileCall jsonFile) \<or>
            ReadFileCall jsonFile \<notin> set (drop (length (calls w)) (calls (snd result)))"
    unfolding stops_at_invalid_def by (cases "fst result") (auto simp: Let_def)
  let ?evs = "drop (length (calls w)) (calls (snd result))"
  have c: "calls (snd result) = calls w @ ?evs"
    using t by (metis append_take_drop_id)
  from d have "(f = InvalidJSON jsonFile err \<and> (\<exists>before. ?evs = before @ [ReadFileCall jsonFile])) \<or>
         ReadFileCall jsonFile \<notin> set ?evs"
    by (metis append_butlast_last_id)
  with f c show ?r by blast
next
  assume ?r
  then obtain f evs where f: "fst result = Fatal f" and c: "calls (snd result) = calls w @ evs"
    and d: "(f = InvalidJSON jsonFile err \<and> (\<exists>before. evs = before @ [ReadFileCall jsonFile])) \<or>
         ReadFileCall jsonFile \<notin> set evs"
    by blast
  from d have "(f = InvalidJSON jsonFile err \<and> evs \<noteq> [] \<and> last evs = ReadFileCall jsonFile) \<or>
         ReadFileCall jsonFile \<notin> set evs"
    by auto
  with f c show ?l
    unfolding stops_at_invalid_def by (simp add: Let_def)
qed

lemma stops_at_invalidI1:
  "result = (Fatal (InvalidJSON jsonFile err), w') \<Longrightarrow>
   calls w' = calls w @ before @ [ReadFileCall jsonFile] \<Longrightarrow>
   stops_at_invalid jsonFile err w result"
  unfolding stops_at_invalid_iff
  by (intro exI [of _ "InvalidJSON jsonFile err"] exI [of _ "before @ [ReadFileCall jsonFile]"]) auto

lemma stops_at_invalidI2:
  "result = (Fatal f, w') \<Longrightarrow> ReadFileCall jsonFile \<notin> set evs \<Longrightarrow> calls w' = calls w @ evs \<Longrightarrow>
   stops_at_invalid jsonFile err w result"
  unfolding stops_at_invalid_iff by (intro exI [of _ f] exI [of _ evs]) auto

lemma stops_at_invalid_later:
  assumes "stops_at_invalid jsonFile err w1 result"
    and "ReadFileCall jsonFile \<notin> set evs1" and "calls w1 = calls w @ evs1"
  shows "stops_at_invalid jsonFile err w result"
proof -
  obtain f evs where r: "fst result = Fatal f" "calls (snd result) = calls w1 @ evs"
    and d: "(f = InvalidJSON jsonFile err \<and> (\<exists>before. evs = before @ [ReadFileCall jsonFile])) \<or>
         ReadFileCall jsonFile \<notin> set evs"
    using assms(1) unfolding stops_at_invalid_iff by blast
  have c: "calls (snd result) = calls w @ (evs1 @ evs)"
    using r(2) assms(3) by simp
  from d show ?thesis
  proof
    assume a: "f = InvalidJSON jsonFile err \<and> (\<exists>before. evs = before @ [ReadFileCall jsonFile])"
    then obtain before where "evs = before @ [ReadFileCall jsonFile]" by blast
    then have "evs1 @ evs = (evs1 @ before) @ [ReadFileCall jsonFile]" by simp
    with r(1) c a show ?thesis unfolding stops_at_invalid_iff by blast
  next
    assume "ReadFileCall jsonFile \<notin> set evs"
    with assms(2) have "ReadFileCall jsonFile \<notin> set (evs1 @ evs)" by simp
    with r(1) c show ?thesis unfolding stops_at_invalid_iff by blast
  qed
qed

lemma runProcessor_loop_invalid:
  assumes "jsonFile \<in> set jsonFiles" and "HasSuffix jsonFile ''.json''"
    and "ReadFile X (files w) jsonFile = Some data" and "Unmarshal X data = Inl err"
  shows "stops_at_invalid jsonFile err w
           (for_range (runProcessor_file X gov outputDir) jsonFiles w)"
  using assms(1,3)
proof (induction jsonFiles arbitrary: w)
  case Nil
  then show ?case by simp
next
  case (Cons x xs)
  show ?case
  proof (cases "x = jsonFile")
    case True
    then have "for_range (runProcessor_file X gov outputDir) (x # xs) w =
        (Fatal (InvalidJSON jsonFile err), w\<lparr>calls := calls w @ [ReadFileCall jsonFile]\<rparr>)"
      using runProcessor_file_invalid [OF Cons.prems(2) assms(4)] by simp
    then show ?thesis
      by (rule stops_at_invalidI1 [where before = "[]"]) simp
  next
    case False
    with Cons.prems(1) have mem: "jsonFile \<in> set xs" by simp
    from False have nr: "ReadFileCall jsonFile \<noteq> ReadFileCall x" by simp
    show ?thesis
    proof (cases rule: runProcessor_file_cases
        [where w = w and jsonFile = x and X = X and gov = gov and outputDir = outputDir])
      case unreadable
      then have "for_range (runProcessor_file X gov outputDir) (x # xs) w =
          (Fatal (ReadFailed x), w\<lparr>calls := calls w @ [ReadFileCall x]\<rparr>)" by simp
      then show ?thesis by (rule stops_at_invalidI2) (use nr in simp_all)
    next
      case (invalid data' err')
      then have "for_range (runProcessor_file X gov outputDir) (x # xs) w =
          (Fatal (InvalidJSON x err'), w\<lparr>calls := calls w @ [ReadFileCall x]\<rparr>)" by simp
      then show ?thesis by (rule stops_at_invalidI2) (use nr in simp_all)
    next
      case (refused data' parsed err')
      then have "for_range (runProcessor_file X gov outputDir) (x # xs) w =
          (Fatal (invokeFatal err'), w\<lparr>calls := calls w @
             [ReadFileCall x,
              InvokeCall gov (documentRequest X (baseNameOf x) (EncodeToString data'))]\<rparr>)" by simp
      then show ?thesis by (rule stops_at_invalidI2) (use nr in simp_all)
    next
      case (unwritten data' parsed resp err' doc w')
      then have "for_range (runProcessor_file X gov outputDir) (x # xs) w =
          (Fatal (PDFFailed err'), w')" by simp
      then show ?thesis
        by (rule stops_at_invalidI2 [where evs =
             "[ReadFileCall x,
               InvokeCall gov (documentRequest X (baseNameOf x) (EncodeToString data')),
               CreateCall (pdfPathOf outputDir x) doc]"])
          (use nr unwritten(5) in simp_all)
    next
      case (written data' parsed resp doc f)
      let ?w1 = "w\<lparr>calls := calls w @
             [ReadFileCall x,
              InvokeCall gov (documentRequest X (baseNameOf x) (EncodeToString data')),
              CreateCall (pdfPathOf outputDir x) doc],
            files := (files w)(pdfPathOf outputDir x \<mapsto> f)\<rparr>"
      have "ReadFile X (files ?w1) jsonFile = Some data"
        using Cons.prems(2) json_is_no_pdfPath [OF assms(2), of outputDir "baseNameOf x"]
        by (simp add: ReadFile_def)
      from Cons.IH [OF mem this]
      have "stops_at_invalid jsonFile err ?w1 (for_range (runProcessor_file X gov outputDir) xs ?w1)" .
      then have "stops_at_invalid jsonFile err w (for_range (runProcessor_file X gov outputDir) xs ?w1)"
        by (rule stops_at_invalid_later) (use nr in simp_all)
      then show ?thesis using written(6) by simp
    qed
  qed
qed

lemma embedded_loop_invalid:
  assumes "jsonFile \<in> set jsonFiles" and "HasSuffix jsonFile ''.json''"
    and "ReadFile X (files w) jsonFile = Some data" and "Unmarshal X data = Inl err"
  shows "stops_at_invalid jsonFile err w
           (for_range (embedded_file X gov outputDir) jsonFiles w)"
  using assms(1,3)
proof (induction jsonFiles arbitrary: w)
  case Nil
  then show ?case by simp
next
  case (Cons x xs)
  show ?case
  proof (cases "x = jsonFile")
    case True
    then have "for_range (embedded_file X gov outputDir) (x # xs) w =
        (Fatal (InvalidJSON jsonFile err), w\<lparr>calls := calls w @ [ReadFileCall jsonFile]\<rparr>)"
      using embedded_file_invalid [OF Cons.prems(2) assms(4)] by simp
    then show ?thesis
      by (rule stops_at_invalidI1 [where before = "[]"]) simp
  next
    case False
    with Cons.prems(1) have mem: "jsonFile \<in> set xs" by simp
    from False have nr: "ReadFileCall jsonFile \<noteq> ReadFileCall x" by simp
    show ?thesis
    proof (cases rule: embedded_file_cases
        [where w = w and jsonFile = x and X = X and gov = gov and outputDir = outputDir])
      case unreadable
      then have "for_range (embedded_file X gov outputDir) (x # xs) w =
          (Fatal (ReadFailed x), w\<lparr>calls := calls w @ [ReadFileCall x]\<rparr>)" by simp
      then show ?thesis by (rule stops_at_invalidI2) (use nr in simp_all)
    next
      case (invalid data' err')
      then have "for_range (embedded_file X gov outputDir) (x # xs) w =
          (Fatal (InvalidJSON x err'), w\<lparr>calls := calls w @ [ReadFileCall x]\<rparr>)" by simp
      then show ?thesis by (rule stops_at_invalidI2) (use nr in simp_all)
    next
      case (unformatted data' parsed err')
      then have "for_range (embedded_file X gov outputDir) (x # xs) w =
          (Fatal (FormatFailed err'), w\<lparr>calls := calls w @ [ReadFileCall x]\<rparr>)" by simp
      then show ?thesis by (rule stops_at_invalidI2) (use nr in simp_all)
    next
      case (refused data' parsed prettyJSON err')
      then have "for_range (embedded_file X gov outputDir) (x # xs) w =
          (Fatal (invokeFatal err'), w\<lparr>calls := calls w @
             [ReadFileCall x,
              InvokeCall gov (embeddedRequest X (embeddedPrompt @ prettyJSON))]\<rparr>)" by simp
      then show ?thesis by (rule stops_at_invalidI2) (use nr in simp_all)
    next
      case (unwritten data' parsed prettyJSON resp err' doc w')
      then have "for_range (embedded_file X gov outputDir) (x # xs) w =
          (Fatal (PDFFailed err'), w')" by simp
      then show ?thesis
        by (rule stops_at_invalidI2 [where evs =
             "[ReadFileCall x,
               InvokeCall gov (embeddedRequest X (embeddedPrompt @ prettyJSON)),
               CreateCall (pdfPathOf outputDir x) doc]"])
          (use nr unwritten(6) in simp_all)
    next
      case (written data' parsed prettyJSON resp doc f)
      let ?w1 = "w\<lparr>calls := calls w @
             [ReadFileCall x,
              InvokeCall gov (embeddedRequest X (embeddedPrompt @ prettyJSON)),
              CreateCall (pdfPathOf outputDir x) doc],
            files := (files w)(pdfPathOf outputDir x \<mapsto> f)\<rparr>"
      have "ReadFile X (files ?w1) jsonFile = Some data"
        using Cons.prems(2) json_is_no_pdfPath [OF assms(2), of outputDir "baseNameOf x"]
        by (simp add: ReadFile_def)
      from Cons.IH [OF mem this]
      have "stops_at_invalid jsonFile err ?w1 (for_range (embedded_file X gov outputDir) xs ?w1)" .
      then have "stops_at_invalid jsonFile err w (for_range (embedded_file X gov outputDir) xs ?w1)"
        by (rule stops_at_invalid_later) (use nr in simp_all)
      then show ?thesis using written(6) by simp
    qed
  qed
qed


subsection \<open>Requests\<close>














lemma runProcessor_file_budget:
  assumes "ReadFile X (files w) jsonFile = Some data" and "Unmarshal X data = Inr parsed"
    and "Invoke X (calls w @ [ReadFileCall jsonFile]) gov
           (documentRequest X (baseNameOf jsonFile) (EncodeToString data)) = Inl (GovernorErr ge)"
    and "IsBudgetExceeded ge"
  shows "runProcessor_file X gov outputDir jsonFile w =
           (Fatal (BudgetExceeded (Msg ge)),
            w\<lparr>calls := calls w @
               [ReadFileCall jsonFile,
                InvokeCall gov (documentRequest X (baseNameOf jsonFile) (EncodeToString data))]\<rparr>)"
  using assms by (simp add: runProcessor_file_def Let_def invokeFatal_def)

section \<open>The claims\<close>

text \<open>
  Claim C1. When a run of \<^verbatim>\<open>runProcessor\<close> completes on an input directory whose listing
  is the files \<^verbatim>\<open>X.json\<close> for \<open>N\<close> distinct names \<open>X\<close>, it has handed exactly \<open>N\<close> files to
  the PDF writer, one per input and in the order of the listing, the one for \<^verbatim>\<open>X.json\<close>
  being \<^verbatim>\<open>X-summary.pdf\<close> in the output directory; these \<open>N\<close> paths are distinct, each of
  them holds a file afterwards, and no other path of the file system has changed.
\<close>

theorem one_pdf_per_json_file:
  assumes run: "runProcessor X inputDir outputDir executionRunID w = (Complete, w')"
    and listing: "Glob X (files w) (Join [inputDir, ''*.json'']) =
                    Inr (map (\<lambda>x. Join [inputDir, x @ ''.json'']) names)"
    and names: "distinct names" "\<forall>x\<in>set names. CHR ''/'' \<notin> set x"
  shows "created (calls w') =
           created (calls w) @ map (\<lambda>x. Join [outputDir, x @ ''-summary.pdf'']) names \<and>
         distinct (map (\<lambda>x. Join [outputDir, x @ ''-summary.pdf'']) names) \<and>
         (\<forall>x\<in>set names. files w' (Join [outputDir, x @ ''-summary.pdf'']) \<noteq> None) \<and>
         (\<forall>path. path \<notin> (\<lambda>x. Join [outputDir, x @ ''-summary.pdf'']) ` set names \<longrightarrow>
                 files w' path = files w path)"
proof (cases rule: runProcessor_cases
    [where X = X and inputDir = inputDir and outputDir = outputDir and executionRunID = executionRunID and w = w])
  case (listed jsonFiles)
  let ?out = "\<lambda>x. Join [outputDir, x @ ''-summary.pdf'']"
  let ?w1 = "w\<lparr>calls := calls w @ [GlobCall (Join [inputDir, ''*.json''])]\<rparr>"
  have js: "jsonFiles = map (\<lambda>x. Join [inputDir, x @ ''.json'']) names"
    using listing listed(4) by simp
  have loop: "for_range (runProcessor_file X (NewGovernor (environ w)) outputDir) jsonFiles ?w1 =
                (Complete, w')"
    using run listed(6) by simp
  have path: "pdfPathOf outputDir (Join [inputDir, x @ ''.json'']) = ?out x" if "x \<in> set names" for x
    using that names(2) listed(1) by (intro listed_pdfPath) auto
  then have paths: "map (pdfPathOf outputDir) jsonFiles = map ?out names"
    unfolding js by (simp only: map_map o_def map_eq_conv) blast
  have img: "pdfPathOf outputDir ` set jsonFiles = ?out ` set names"
  proof -
    have "set (map (pdfPathOf outputDir) jsonFiles) = set (map ?out names)"
      by (simp only: paths)
    then show ?thesis by (simp only: set_map)
  qed
  have inj: "inj_on ?out (set names)"
  proof (rule inj_onI)
    fix x y assume "x \<in> set names" "y \<in> set names" "?out x = ?out y"
    then show "x = y" using names(2) listed(2) pdfPath_inj by blast
  qed
  have c: "created (calls w') = created (calls w) @ map ?out names"
    using loop_created [OF loop] by (simp only: paths) (simp add: created_append)
  have e: "\<forall>x\<in>set names. files w' (?out x) \<noteq> None"
  proof
    fix x assume x: "x \<in> set names"
    then have "Join [inputDir, x @ ''.json''] \<in> set jsonFiles" unfolding js by simp
    from loop_written [OF loop this] show "files w' (?out x) \<noteq> None"
      by (simp add: path [OF x])
  qed
  have f: "\<forall>path. path \<notin> ?out ` set names \<longrightarrow> files w' path = files w path"
    using loop_frame [OF loop] unfolding img by simp
  have d: "distinct (map ?out names)"
    using inj names(1) by (simp add: distinct_map)
  from c d e f show ?thesis by (intro conjI)
qed (use run in simp_all)

theorem one_pdf_per_json_file_witness:
  "runProcessor demo ''in'' ''out'' ''run-1'' demo_world =
     (Complete, snd (runProcessor demo ''in'' ''out'' ''run-1'' demo_world)) \<and>
   Glob demo (files demo_world) (Join [''in'', ''*.json'']) =
     Inr (map (\<lambda>x. Join [''in'', x @ ''.json'']) [''patients'', ''study'']) \<and>
   distinct [''patients'', ''study''] \<and>
   CHR ''/'' \<notin> set ''patients'' \<and> CHR ''/'' \<notin> set ''study'' \<and>
   created (calls (snd (runProcessor demo ''in'' ''out'' ''run-1'' demo_world))) =
     created (calls demo_world) @
     map (\<lambda>x. Join [''out'', x @ ''-summary.pdf'']) [''patients'', ''study''] \<and>
   distinct (map (\<lambda>x. Join [''out'', x @ ''-summary.pdf'']) [''patients'', ''study'']) \<and>
   files (snd (runProcessor demo ''in'' ''out'' ''run-1'' demo_world))
     (Join [''out'', ''patients'' @ ''-summary.pdf'']) \<noteq> None"
proof -
  let ?run = "runProcessor demo ''in'' ''out'' ''run-1'' demo_world"
  have "fst ?run = Complete"
    by (simp add: run_eval path_eval demo_eval)
  then have run: "?run = (Complete, snd ?run)"
    by (metis prod.collapse)
  have listing: "Glob demo (files demo_world) (Join [''in'', ''*.json'']) =
     Inr (map (\<lambda>x. Join [''in'', x @ ''.json'']) [''patients'', ''study''])"
    by (simp add: path_eval demo_eval)
  have d: "distinct [''patients'', ''study'']" by simp
  have n: "\<forall>x\<in>set [''patients'', ''study'']. CHR ''/'' \<notin> set x" by simp
  note c = one_pdf_per_json_file [OF run listing d n]
  have w: "files (snd ?run) (Join [''out'', ''patients'' @ ''-summary.pdf'']) \<noteq> None"
    using c [THEN conjunct2, THEN conjunct2, THEN conjunct1] by simp
  have s: "CHR ''/'' \<notin> set ''patients''" "CHR ''/'' \<notin> set ''study''" by simp_all
  from run listing d s c [THEN conjunct1] c [THEN conjunct2, THEN conjunct1] w
  show ?thesis by (intro conjI)
qed


text \<open>
  Claim C2. Let a listed file, named \<^verbatim>\<open>*.json\<close> as every match of the pattern is, hold
  contents that the JSON decoder refuses. In both builds the run then never completes:
  either it has stopped on an earlier file and this file was never read, or its error is
  the validation error of this file and the read of the file is the last call it made.
  Either way no gateway request is made for the file. The loop body itself, started on
  such a file, ends the process with the validation error right after reading it.
\<close>

theorem invalid_json_is_fatal_before_gateway:
  assumes "jsonFile \<in> set jsonFiles" and "HasSuffix jsonFile ''.json''"
    and "ReadFile X (files w) jsonFile = Some data" and "Unmarshal X data = Inl err"
  shows "(Glob X (files w) (Join [inputDir, ''*.json'']) = Inr jsonFiles \<longrightarrow>
            stops_at_invalid jsonFile err w (runProcessor X inputDir outputDir executionRunID w)) \<and>
         (Glob X (files w) (Join [Getenv (environ w) ''INPUT_DIR'', ''*.json'']) = Inr jsonFiles \<longrightarrow>
            stops_at_invalid jsonFile err w (main_embedded X w)) \<and>
         runProcessor_file X gov outputDir jsonFile w =
           (Fatal (InvalidJSON jsonFile err), w\<lparr>calls := calls w @ [ReadFileCall jsonFile]\<rparr>) \<and>
         embedded_file X gov outputDir jsonFile w =
           (Fatal (InvalidJSON jsonFile err), w\<lparr>calls := calls w @ [ReadFileCall jsonFile]\<rparr>)"
proof (intro conjI impI)
  assume listing: "Glob X (files w) (Join [inputDir, ''*.json'']) = Inr jsonFiles"
  show "stops_at_invalid jsonFile err w (runProcessor X inputDir outputDir executionRunID w)"
  proof (cases rule: runProcessor_cases
      [where X = X and inputDir = inputDir and outputDir = outputDir and executionRunID = executionRunID and w = w])
    case dirs
    from dirs(2) show ?thesis by (rule stops_at_invalidI2 [where evs = "[]"]) simp_all
  next
    case unavailable
    from unavailable(2) show ?thesis by (rule stops_at_invalidI2 [where evs = "[]"]) simp_all
  next
    case (unlisted e)
    with listing show ?thesis by simp
  next
    case none
    with listing assms(1) show ?thesis by simp
  next
    case (listed js)
    let ?w1 = "w\<lparr>calls := calls w @ [GlobCall (Join [inputDir, ''*.json''])]\<rparr>"
    from listed(4) listing have js: "js = jsonFiles" by simp
    have "ReadFile X (files ?w1) jsonFile = Some data" using assms(3) by simp
    from runProcessor_loop_invalid [OF assms(1,2) this assms(4)]
    have "stops_at_invalid jsonFile err ?w1
            (for_range (runProcessor_file X (NewGovernor (environ w)) outputDir) jsonFiles ?w1)" .
    then have "stops_at_invalid jsonFile err w
            (for_range (runProcessor_file X (NewGovernor (environ w)) outputDir) jsonFiles ?w1)"
      by (rule stops_at_invalid_later) simp_all
    then show ?thesis using listed(6) js by simp
  qed
next
  let ?inputDir = "Getenv (environ w) ''INPUT_DIR''"
  assume listing: "Glob X (files w) (Join [?inputDir, ''*.json'']) = Inr jsonFiles"
  show "stops_at_invalid jsonFile err w (main_embedded X w)"
  proof (cases rule: main_embedded_cases [where X = X and w = w])
    case dirs
    from dirs(2) show ?thesis by (rule stops_at_invalidI2 [where evs = "[]"]) simp_all
  next
    case unavailable
    from unavailable(2) show ?thesis by (rule stops_at_invalidI2 [where evs = "[]"]) simp_all
  next
    case (unlisted e)
    with listing show ?thesis by simp
  next
    case none
    with listing assms(1) show ?thesis by simp
  next
    case (listed js)
    let ?w1 = "w\<lparr>calls := calls w @ [GlobCall (Join [?inputDir, ''*.json''])]\<rparr>"
    from listed(4) listing have js: "js = jsonFiles" by simp
    have "ReadFile X (files ?w1) jsonFile = Some data" using assms(3) by simp
    from embedded_loop_invalid [OF assms(1,2) this assms(4)]
    have "stops_at_invalid jsonFile err ?w1
            (for_range (embedded_file X (NewGovernor (environ w)) (Getenv (environ w) ''OUTPUT_DIR''))
               jsonFiles ?w1)" .
    then have "stops_at_invalid jsonFile err w
            (for_range (embedded_file X (NewGovernor (environ w)) (Getenv (environ w) ''OUTPUT_DIR''))
               jsonFiles ?w1)"
      by (rule stops_at_invalid_later) simp_all
    then show ?thesis using listed(6) js by simp
  qed
next
  show "runProcessor_file X gov outputDir jsonFile w =
           (Fatal (InvalidJSON jsonFile err), w\<lparr>calls := calls w @ [ReadFileCall jsonFile]\<rparr>)"
    using assms(3,4) by (rule runProcessor_file_invalid)
next
  show "embedded_file X gov outputDir jsonFile w =
           (Fatal (InvalidJSON jsonFile err), w\<lparr>calls := calls w @ [ReadFileCall jsonFile]\<rparr>)"
    using assms(3,4) by (rule embedded_file_invalid)
qed

theorem invalid_json_witness:
  "''mixed/broken.json'' \<in> set [''mixed/good.json'', ''mixed/broken.json''] \<and>
   HasSuffix ''mixed/broken.json'' ''.json'' \<and>
   ReadFile demo (files demo_world_mixed) ''mixed/broken.json'' = Some ''{'' \<and>
   Unmarshal demo ''{'' = Inl ''unexpected end of JSON input'' \<and>
   Glob demo (files demo_world_mixed) (Join [''mixed'', ''*.json'']) =
     Inr [''mixed/good.json'', ''mixed/broken.json''] \<and>
   Getenv (environ demo_world_mixed) ''INPUT_DIR'' = ''mixed'' \<and>
   stops_at_invalid ''mixed/broken.json'' ''unexpected end of JSON input'' demo_world_mixed
     (runProcessor demo ''mixed'' ''out'' ''run-1'' demo_world_mixed) \<and>
   stops_at_invalid ''mixed/broken.json'' ''unexpected end of JSON input'' demo_world_mixed
     (main_embedded demo demo_world_mixed) \<and>
   runProcessor_file demo (NewGovernor (environ demo_world_mixed)) ''out'' ''mixed/broken.json''
       demo_world_mixed =
     (Fatal (InvalidJSON ''mixed/broken.json'' ''unexpected end of JSON input''),
      demo_world_mixed\<lparr>calls := calls demo_world_mixed @ [ReadFileCall ''mixed/broken.json'']\<rparr>) \<and>
   fst (runProcessor demo ''mixed'' ''out'' ''run-1'' demo_world_mixed) =
     Fatal (InvalidJSON ''mixed/broken.json'' ''unexpected end of JSON input'') \<and>
   created (calls (snd (runProcessor demo ''mixed'' ''out'' ''run-1'' demo_world_mixed))) =
     [''out/good-summary.pdf''] \<and>
   length (invoked (calls (snd (runProcessor demo ''mixed'' ''out'' ''run-1'' demo_world_mixed)))) = 1"
proof -
  have r: "fst (runProcessor demo ''mixed'' ''out'' ''run-1'' demo_world_mixed) =
     Fatal (InvalidJSON ''mixed/broken.json'' ''unexpected end of JSON input'')"
    "created (calls (snd (runProcessor demo ''mixed'' ''out'' ''run-1'' demo_world_mixed))) =
     [''out/good-summary.pdf'']"
    "length (invoked (calls (snd (runProcessor demo ''mixed'' ''out'' ''run-1'' demo_world_mixed)))) = 1"
    by (simp_all add: run_eval path_eval demo_eval)
  have m: "''mixed/broken.json'' \<in> set [''mixed/good.json'', ''mixed/broken.json'']" by simp
  have s: "HasSuffix ''mixed/broken.json'' ''.json''" by (simp add: HasSuffix_def)
  have f: "ReadFile demo (files demo_world_mixed) ''mixed/broken.json'' = Some ''{''"
    by (simp add: demo_eval ReadFile_def)
  have u: "Unmarshal demo ''{'' = Inl ''unexpected end of JSON input''"
    by (simp add: demo_eval)
  have g: "Glob demo (files demo_world_mixed) (Join [''mixed'', ''*.json'']) =
     Inr [''mixed/good.json'', ''mixed/broken.json'']"
    by (simp add: path_eval demo_eval)
  have e: "Getenv (environ demo_world_mixed) ''INPUT_DIR'' = ''mixed''"
    by (simp add: demo_eval)
  note c = invalid_json_is_fatal_before_gateway
    [OF m s f u, where inputDir = "''mixed''" and outputDir = "''out''" and executionRunID = "''run-1''"
       and gov = "NewGovernor (environ demo_world_mixed)"]
  have c1: "stops_at_invalid ''mixed/broken.json'' ''unexpected end of JSON input'' demo_world_mixed
     (runProcessor demo ''mixed'' ''out'' ''run-1'' demo_world_mixed)"
    using c [THEN conjunct1] g by (rule mp)
  have g': "Glob demo (files demo_world_mixed)
      (Join [Getenv (environ demo_world_mixed) ''INPUT_DIR'', ''*.json'']) =
     Inr [''mixed/good.json'', ''mixed/broken.json'']"
    using g by (simp only: e)
  have c2: "stops_at_invalid ''mixed/broken.json'' ''unexpected end of JSON input'' demo_world_mixed
     (main_embedded demo demo_world_mixed)"
    using c [THEN conjunct2, THEN conjunct1] g' by (rule mp)
  from m s f u g e c1 c2 c [THEN conjunct2, THEN conjunct2, THEN conjunct1] r
  show ?thesis by (intro conjI)
qed


text \<open>
  Claim C3. When the listing of the input directory is empty, a run with its directories
  given and the governor available ends with the fatal discovery error, the listing
  being the only call it made; and whatever the configuration, the run ends fatally
  with the file system as it was, no file handed to the PDF writer, no gateway request
  and no file read.
\<close>

theorem no_json_files_is_fatal:
  assumes "Glob X (files w) (Join [inputDir, ''*.json'']) = Inr []"
  shows "(inputDir \<noteq> [] \<and> outputDir \<noteq> [] \<and> Available (NewGovernor (environ w)) \<longrightarrow>
            runProcessor X inputDir outputDir executionRunID w =
              (Fatal NoJSONFiles,
               w\<lparr>calls := calls w @ [GlobCall (Join [inputDir, ''*.json''])]\<rparr>)) \<and>
         (\<exists>f w'. runProcessor X inputDir outputDir executionRunID w = (Fatal f, w') \<and>
                 files w' = files w \<and> created (calls w') = created (calls w) \<and>
                 invoked (calls w') = invoked (calls w) \<and>
                 (\<forall>path. ReadFileCall path \<in> set (calls w') \<longrightarrow> ReadFileCall path \<in> set (calls w)))"
  by (simp add: runProcessor_no_files [OF assms] invoked_append created_append)

theorem no_json_files_witness:
  "Glob demo (files demo_world) (Join [''empty'', ''*.json'']) = Inr [] \<and>
   Available (NewGovernor (environ demo_world)) \<and>
   runProcessor demo ''empty'' ''out'' ''run-1'' demo_world =
     (Fatal NoJSONFiles,
      demo_world\<lparr>calls := calls demo_world @ [GlobCall (Join [''empty'', ''*.json''])]\<rparr>)"
proof -
  have g: "Glob demo (files demo_world) (Join [''empty'', ''*.json'']) = Inr []"
    by (simp add: path_eval demo_eval)
  have a: "Available (NewGovernor (environ demo_world))"
    by (simp add: demo_eval)
  have "''empty'' \<noteq> [] \<and> ''out'' \<noteq> [] \<and> Available (NewGovernor (environ demo_world))"
    using a by simp
  with no_json_files_is_fatal [OF g, of "''out''" "''run-1''", THEN conjunct1]
  have "runProcessor demo ''empty'' ''out'' ''run-1'' demo_world =
     (Fatal NoJSONFiles,
      demo_world\<lparr>calls := calls demo_world @ [GlobCall (Join [''empty'', ''*.json''])]\<rparr>)"
    by (rule mp)
  with g a show ?thesis by (intro conjI)
qed


text \<open>
  Claim C4. When the run gets to a file (the files listed before it are done), the file
  is read and decoded, and the governor answers the request for it with a
  budget-exceeded error, the process ends there with the budget error: its last calls
  are the read and the request, so the PDF writer is never called for this file, the
  file system is as it was before the file, and none of the remaining files is touched.
\<close>

theorem budget_exceeded_stops_the_run:
  assumes config: "inputDir \<noteq> []" "outputDir \<noteq> []" "Available (NewGovernor (environ w))"
    and listing: "Glob X (files w) (Join [inputDir, ''*.json'']) = Inr (earlier @ jsonFile # rest)"
    and earlier: "for_range (runProcessor_file X (NewGovernor (environ w)) outputDir) earlier
                    (w\<lparr>calls := calls w @ [GlobCall (Join [inputDir, ''*.json''])]\<rparr>) =
                  (Complete, w1)"
    and valid: "ReadFile X (files w1) jsonFile = Some data" "Unmarshal X data = Inr parsed"
    and budget: "Invoke X (calls w1 @ [ReadFileCall jsonFile]) (NewGovernor (environ w))
                   (documentRequest X (baseNameOf jsonFile) (EncodeToString data)) =
                 Inl (GovernorErr ge)"
      "IsBudgetExceeded ge"
  shows "runProcessor X inputDir outputDir executionRunID w =
           (Fatal (BudgetExceeded (Msg ge)),
            w1\<lparr>calls := calls w1 @
               [ReadFileCall jsonFile,
                InvokeCall (NewGovernor (environ w))
                  (documentRequest X (baseNameOf jsonFile) (EncodeToString data))]\<rparr>) \<and>
         files (snd (runProcessor X inputDir outputDir executionRunID w)) = files w1 \<and>
         created (calls (snd (runProcessor X inputDir outputDir executionRunID w))) = created (calls w1)"
proof -
  have "runProcessor X inputDir outputDir executionRunID w =
          for_range (runProcessor_file X (NewGovernor (environ w)) outputDir)
            (earlier @ jsonFile # rest)
            (w\<lparr>calls := calls w @ [GlobCall (Join [inputDir, ''*.json''])]\<rparr>)"
    using config listing by (simp add: runProcessor_def Let_def)
  also have "\<dots> = (Fatal (BudgetExceeded (Msg ge)),
            w1\<lparr>calls := calls w1 @
               [ReadFileCall jsonFile,
                InvokeCall (NewGovernor (environ w))
                  (documentRequest X (baseNameOf jsonFile) (EncodeToString data))]\<rparr>)"
    using earlier runProcessor_file_budget [OF valid budget]
    by (simp add: for_range_append)
  finally show ?thesis by (simp add: created_append)
qed

theorem budget_exceeded_witness:
  "Available (NewGovernor (environ demo_world)) \<and>
   Glob demo_tight (files demo_world) (Join [''in'', ''*.json'']) =
     Inr ([''in/patients.json''] @ ''in/study.json'' # []) \<and>
   for_range (runProcessor_file demo_tight (NewGovernor (environ demo_world)) ''out'')
       [''in/patients.json'']
       (demo_world\<lparr>calls := calls demo_world @ [GlobCall (Join [''in'', ''*.json''])]\<rparr>) =
     (Complete, demo_after_patients) \<and>
   ReadFile demo_tight (files demo_after_patients) ''in/study.json'' = Some ''[]'' \<and>
   Unmarshal demo_tight ''[]'' = Inr ''[]'' \<and>
   Invoke demo_tight (calls demo_after_patients @ [ReadFileCall ''in/study.json''])
       (NewGovernor (environ demo_world))
       (documentRequest demo_tight (baseNameOf ''in/study.json'') (EncodeToString ''[]'')) =
     Inl (GovernorErr demoBudget) \<and>
   IsBudgetExceeded demoBudget \<and>
   runProcessor demo_tight ''in'' ''out'' ''run-1'' demo_world =
     (Fatal (BudgetExceeded (Msg demoBudget)),
      demo_after_patients\<lparr>calls := calls demo_after_patients @
         [ReadFileCall ''in/study.json'',
          InvokeCall (NewGovernor (environ demo_world))
            (documentRequest demo_tight (baseNameOf ''in/study.json'')
               (EncodeToString ''[]''))]\<rparr>) \<and>
   files (snd (runProcessor demo_tight ''in'' ''out'' ''run-1'' demo_world)) =
     files demo_after_patients \<and>
   created (calls (snd (runProcessor demo_tight ''in'' ''out'' ''run-1'' demo_world))) =
     created (calls demo_after_patients)"
proof -
  let ?gov = "NewGovernor (environ demo_world)"
  let ?w0 = "demo_world\<lparr>calls := calls demo_world @ [GlobCall (Join [''in'', ''*.json''])]\<rparr>"
  have i: "''in'' \<noteq> []" and o: "''out'' \<noteq> []" by simp_all
  have a: "Available ?gov" by (simp add: demo_eval)
  have g: "Glob demo_tight (files demo_world) (Join [''in'', ''*.json'']) =
     Inr ([''in/patients.json''] @ ''in/study.json'' # [])"
    by (simp add: path_eval demo_eval)
  have "fst (for_range (runProcessor_file demo_tight ?gov ''out'') [''in/patients.json''] ?w0) =
          Complete"
    by (simp add: run_eval path_eval demo_eval)
  then have e: "for_range (runProcessor_file demo_tight ?gov ''out'') [''in/patients.json''] ?w0 =
          (Complete, demo_after_patients)"
    unfolding demo_after_patients_def by (metis prod.collapse)
  have f: "ReadFile demo_tight (files demo_after_patients) ''in/study.json'' = Some ''[]''"
    by (simp add: demo_after_patients_def run_eval path_eval demo_eval)
  have u: "Unmarshal demo_tight ''[]'' = Inr ''[]''" by (simp add: demo_eval)
  have b: "Invoke demo_tight (calls demo_after_patients @ [ReadFileCall ''in/study.json'']) ?gov
       (documentRequest demo_tight (baseNameOf ''in/study.json'') (EncodeToString ''[]'')) =
     Inl (GovernorErr demoBudget)"
    by (simp add: demo_after_patients_def run_eval path_eval demo_eval invoked_append)
  have x: "IsBudgetExceeded demoBudget" by (simp add: demoBudget_def)
  note c = budget_exceeded_stops_the_run [OF i o a g e f u b x, of "''run-1''"]
  from a g e f u b x c [THEN conjunct1] c [THEN conjunct2, THEN conjunct1]
    c [THEN conjunct2, THEN conjunct2]
  show ?thesis by (intro conjI)
qed

text \<open>
  Claim C5. For every path, title and body, the report \<^verbatim>\<open>generatePDF\<close> renders is free
  of the library's error state, and its first page starts, at the top margin, with the
  cell reading \<^verbatim>\<open>Dataset Summary: \<close> followed by the title, in black bold 18 point
  Helvetica; the grey 9 point line with the time stamp and the separator rule come
  below it on that page, and the lines of the body, in 11 point, are all the text that
  follows, on this page and the next ones. So the title line is the first text a reader
  of the report meets. And whenever \<^verbatim>\<open>generatePDF\<close> returns no error, this report is what
  the file at the path holds.
\<close>

theorem report_starts_with_title:
  "(let report = document (SplitText X) title body (Now X (calls w))
    in docErr report = None \<and>
       pages report \<noteq> [] \<and>
       take 3 (hd (pages report)) =
         [Cell \<lparr>family = ''helvetica'', style = ''B'', size = 18\<rparr> (0, 0, 0) 720090 (mm 12)
            (''Dataset Summary: '' @ title),
          Cell \<lparr>family = ''helvetica'', style = [], size = 9\<rparr> (128, 128, 128) 1872090 (mm 5)
            (''Generated '' @ Now X (calls w) @ '' by Pennsieve LLM Summarizer''),
          Rule (200, 200, 200) (mm 10) 2664090 (mm 200) 2664090] \<and>
       cells (pages report) =
         (\<lparr>family = ''helvetica'', style = ''B'', size = 18\<rparr>, (0, 0, 0),
          ''Dataset Summary: '' @ title) #
         (\<lparr>family = ''helvetica'', style = [], size = 9\<rparr>, (128, 128, 128),
          ''Generated '' @ Now X (calls w) @ '' by Pennsieve LLM Summarizer'') #
         map (\<lambda>line. (\<lparr>family = ''helvetica'', style = [], size = 11\<rparr>, (0, 0, 0), line))
           (filter (\<lambda>line. line \<noteq> [])
              (SplitText X \<lparr>family = ''helvetica'', style = [], size = 11\<rparr> body)) \<and>
       texts (pages report) =
         (''Dataset Summary: '' @ title) #
         (''Generated '' @ Now X (calls w) @ '' by Pennsieve LLM Summarizer'') #
         filter (\<lambda>line. line \<noteq> [])
           (SplitText X \<lparr>family = ''helvetica'', style = [], size = 11\<rparr> body) \<and>
       (fst (generatePDF X path title body w) = None \<longrightarrow>
          map_option contents (files (snd (generatePDF X path title body w)) path) =
            Some (Report (pages report))))"
proof -
  let ?report = "document (SplitText X) title body (Now X (calls w))"
  note r = document_ready [of "SplitText X" title body "Now X (calls w)"]
  have t: "texts (pages ?report) =
         (''Dataset Summary: '' @ title) #
         (''Generated '' @ Now X (calls w) @ '' by Pennsieve LLM Summarizer'') #
         filter (\<lambda>line. line \<noteq> [])
           (SplitText X \<lparr>family = ''helvetica'', style = [], size = 11\<rparr> body)"
    by (simp add: texts_cells r comp_def)
  have f: "map_option contents (files (snd (generatePDF X path title body w)) path) =
            Some (Report (pages ?report))"
    if "fst (generatePDF X path title body w) = None"
    using that by (cases rule: generatePDF_cases [of X path title body w]) simp_all
  from r t f show ?thesis by (simp only: Let_def) blast
qed

theorem report_starts_with_title_witness:
  "fst (generatePDF demo ''out/x.pdf'' ''x'' ''A body.'' demo_world) = None \<and>
   map_option contents
     (files (snd (generatePDF demo ''out/x.pdf'' ''x'' ''A body.'' demo_world)) ''out/x.pdf'') =
     Some (Report
       ([Cell \<lparr>family = ''helvetica'', style = ''B'', size = 18\<rparr> (0, 0, 0) 720090 (mm 12)
           ''Dataset Summary: x'',
         Cell \<lparr>family = ''helvetica'', style = [], size = 9\<rparr> (128, 128, 128) 1872090 (mm 5)
           ''Generated 2024-05-01 12:00 UTC by Pennsieve LLM Summarizer'',
         Rule (200, 200, 200) (mm 10) 2664090 (mm 200) 2664090,
         Cell \<lparr>family = ''helvetica'', style = [], size = 11\<rparr> (0, 0, 0) 3096090 (mm 6)
           ''A body.''] # []))"
proof -
  let ?run = "generatePDF demo ''out/x.pdf'' ''x'' ''A body.'' demo_world"
  let ?report = "document (SplitText demo) ''x'' ''A body.'' (Now demo (calls demo_world))"
  have s: "fst ?run = None"
    by (simp add: generatePDF_eq Create_def put_def demo_def demo_world_def)
  note t = report_starts_with_title
    [of demo "''x''" "''A body.''" demo_world "''out/x.pdf''", unfolded Let_def]
  have "fst ?run = None \<longrightarrow> map_option contents (files (snd ?run) ''out/x.pdf'') =
          Some (Report (pages ?report))"
    by (rule t [THEN conjunct2, THEN conjunct2, THEN conjunct2, THEN conjunct2, THEN conjunct2])
  with s have c: "map_option contents (files (snd ?run) ''out/x.pdf'') =
          Some (Report (pages ?report))" by (rule rev_mp)
  have p: "pages ?report =
       [Cell \<lparr>family = ''helvetica'', style = ''B'', size = 18\<rparr> (0, 0, 0) 720090 (mm 12)
           ''Dataset Summary: x'',
         Cell \<lparr>family = ''helvetica'', style = [], size = 9\<rparr> (128, 128, 128) 1872090 (mm 5)
           ''Generated 2024-05-01 12:00 UTC by Pennsieve LLM Summarizer'',
         Rule (200, 200, 200) (mm 10) 2664090 (mm 200) 2664090,
         Cell \<lparr>family = ''helvetica'', style = [], size = 11\<rparr> (0, 0, 0) 3096090 (mm 6)
           ''A body.''] # []"
    by (simp add: document_eq MultiCell_def CellFormat_def draw_def AddPage_def Let_def mm_def
        demo_def demo_world_def)
  from s c show ?thesis by (simp only: p)
qed



text \<open>
  Claim C7. \<^verbatim>\<open>main\<close> tests one variable, \<^verbatim>\<open>AWS_LAMBDA_RUNTIME_API\<close>: when it is set (to a
  non-empty value, which is what \<^verbatim>\<open>os.Getenv\<close> can tell) the configuration comes from the
  event payload through \<^verbatim>\<open>handleLambda\<close>, otherwise from \<^verbatim>\<open>INPUT_DIR\<close>, \<^verbatim>\<open>OUTPUT_DIR\<close>
  and \<^verbatim>\<open>EXECUTION_RUN_ID\<close>. With the same file system, history and gateway function
  reference, and equal input directory, output directory and run identifier (a value of
  an environment variable, hence without a NUL byte), the two modes end with the same
  outcome, the same file system and the same sequence of calls.
\<close>

theorem modes_run_the_same_pipeline:
  fixes wd wl :: world
  assumes direct: "Getenv (environ wd) ''AWS_LAMBDA_RUNTIME_API'' = []"
    and event: "Getenv (environ wl) ''AWS_LAMBDA_RUNTIME_API'' \<noteq> []"
    and same: "files wl = files wd" "calls wl = calls wd"
      "Getenv (environ wl) ''LLM_GOVERNOR_FUNCTION'' = Getenv (environ wd) ''LLM_GOVERNOR_FUNCTION''"
    and config: "InputDir ev = Getenv (environ wd) ''INPUT_DIR''"
      "OutputDir ev = Getenv (environ wd) ''OUTPUT_DIR''"
      "ExecutionRunID ev = Getenv (environ wd) ''EXECUTION_RUN_ID''"
    and nul: "CHR 0x00 \<notin> set (ExecutionRunID ev)"
  shows "main X ev' wd =
           runProcessor X (Getenv (environ wd) ''INPUT_DIR'') (Getenv (environ wd) ''OUTPUT_DIR'')
             (Getenv (environ wd) ''EXECUTION_RUN_ID'') wd \<and>
         main X ev wl = handleLambda X ev wl \<and>
         fst (main X ev wl) = fst (main X ev' wd) \<and>
         files (snd (main X ev wl)) = files (snd (main X ev' wd)) \<and>
         calls (snd (main X ev wl)) = calls (snd (main X ev' wd))"
proof -
  let ?env = "(environ wl)(''EXECUTION_RUN_ID'' \<mapsto> ExecutionRunID ev)"
  let ?run = "runProcessor X (InputDir ev) (OutputDir ev) (ExecutionRunID ev)"
  have d: "main X ev' wd = ?run wd"
    using direct config by (simp add: main_def)
  have l: "main X ev wl = handleLambda X ev wl"
    using event by (simp add: main_def)
  have "handleLambda X ev wl = ?run (wl\<lparr>environ := ?env\<rparr>)"
    using nul by (simp add: handleLambda_def Let_def Setenv_run_id)
  moreover have "wl\<lparr>environ := ?env\<rparr> = wd\<lparr>environ := ?env\<rparr>"
    using same(1,2) by (cases wl, cases wd) simp
  moreover have "NewGovernor ?env = NewGovernor (environ wd)"
    using same(3) config(3) by (simp add: NewGovernor_def Getenv_def)
  ultimately have "main X ev wl = apsnd (\<lambda>w'. w'\<lparr>environ := ?env\<rparr>) (?run wd)"
    using l runProcessor_environ [of ?env wd X "InputDir ev" "OutputDir ev" "ExecutionRunID ev"]
    by simp
  then show ?thesis
    using d l config by (cases "?run wd") simp
qed

theorem modes_witness:
  "Getenv (environ demo_world) ''AWS_LAMBDA_RUNTIME_API'' = [] \<and>
   Getenv (environ demo_world_lambda) ''AWS_LAMBDA_RUNTIME_API'' \<noteq> [] \<and>
   InputDir demo_event = Getenv (environ demo_world) ''INPUT_DIR'' \<and>
   OutputDir demo_event = Getenv (environ demo_world) ''OUTPUT_DIR'' \<and>
   ExecutionRunID demo_event = Getenv (environ demo_world) ''EXECUTION_RUN_ID'' \<and>
   main demo demo_event demo_world_lambda = handleLambda demo demo_event demo_world_lambda \<and>
   fst (main demo demo_event demo_world_lambda) = fst (main demo demo_event demo_world) \<and>
   files (snd (main demo demo_event demo_world_lambda)) =
     files (snd (main demo demo_event demo_world)) \<and>
   calls (snd (main demo demo_event demo_world_lambda)) =
     calls (snd (main demo demo_event demo_world))"
proof -
  have d: "Getenv (environ demo_world) ''AWS_LAMBDA_RUNTIME_API'' = []"
    by (simp add: demo_eval)
  have l: "Getenv (environ demo_world_lambda) ''AWS_LAMBDA_RUNTIME_API'' \<noteq> []"
    by (simp add: demo_eval)
  have s: "files demo_world_lambda = files demo_world" "calls demo_world_lambda = calls demo_world"
    "Getenv (environ demo_world_lambda) ''LLM_GOVERNOR_FUNCTION'' =
     Getenv (environ demo_world) ''LLM_GOVERNOR_FUNCTION''"
    by (simp_all add: demo_eval)
  have c: "InputDir demo_event = Getenv (environ demo_world) ''INPUT_DIR''"
    "OutputDir demo_event = Getenv (environ demo_world) ''OUTPUT_DIR''"
    "ExecutionRunID demo_event = Getenv (environ demo_world) ''EXECUTION_RUN_ID''"
    by (simp_all add: demo_eval)
  have n: "CHR 0x00 \<notin> set (ExecutionRunID demo_event)" by (simp add: demo_event_def)
  note t = modes_run_the_same_pipeline [OF d l s c n, of demo demo_event]
  from d l c t [THEN conjunct2, THEN conjunct1]
    t [THEN conjunct2, THEN conjunct2, THEN conjunct1]
    t [THEN conjunct2, THEN conjunct2, THEN conjunct2, THEN conjunct1]
    t [THEN conjunct2, THEN conjunct2, THEN conjunct2, THEN conjunct2]
  show ?thesis by (intro conjI)
qed

text \<open>
  Claim C8, as amended. Let \<^verbatim>\<open>generatePDF\<close> have written a report to a path. When the
  process may open that file for writing again (it is root, or its mask leaves it the
  write permission on the files it makes, or the file was there before the first call)
  and the second write meets no error, calling \<^verbatim>\<open>generatePDF\<close> again with the same title
  and body returns no error and replaces what the file at that path holds, and nothing
  else in the file system, by the report it renders then: a document free of the error
  state whose texts are the title line, the line with the time stamp of the second call
  and the lines of the body. When the clock still shows the same minute, the file system
  after the second call is the one after the first.
\<close>

theorem render_again_overwrites:
  assumes first: "generatePDF X path title body w = (None, w1)"
    and may: "Root X \<or> \<not> masksOwnerWrite (Umask X) \<or> files w path \<noteq> None"
    and io: "WriteTo X
               (calls w1 @ [CreateCall path (document (SplitText X) title body (Now X (calls w1)))])
               path (Output X (pages (document (SplitText X) title body (Now X (calls w1))))) =
             None"
  shows "(let again = document (SplitText X) title body (Now X (calls w1));
              result = generatePDF X path title body w1
          in fst result = None \<and>
             calls (snd result) = calls w1 @ [CreateCall path again] \<and>
             (\<exists>f. files w1 path = Some f \<and>
                  contents f = Report (pages (document (SplitText X) title body (Now X (calls w)))) \<and>
                  files (snd result) = (files w1)(path \<mapsto> f\<lparr>contents := Report (pages again)\<rparr>)) \<and>
             docErr again = None \<and>
             cells (pages again) =
               (\<lparr>family = ''helvetica'', style = ''B'', size = 18\<rparr>, (0, 0, 0),
                ''Dataset Summary: '' @ title) #
               (\<lparr>family = ''helvetica'', style = [], size = 9\<rparr>, (128, 128, 128),
                ''Generated '' @ Now X (calls w1) @ '' by Pennsieve LLM Summarizer'') #
               map (\<lambda>line. (\<lparr>family = ''helvetica'', style = [], size = 11\<rparr>, (0, 0, 0), line))
                 (filter (\<lambda>line. line \<noteq> [])
                    (SplitText X \<lparr>family = ''helvetica'', style = [], size = 11\<rparr> body)) \<and>
             (Now X (calls w1) = Now X (calls w) \<longrightarrow> files (snd result) = files w1))"
proof (cases rule: generatePDF_cases [of X path title body w])
  case (failed err w')
  with first show ?thesis by simp
next
  case (written f)
  let ?first = "document (SplitText X) title body (Now X (calls w))"
  let ?again = "document (SplitText X) title body (Now X (calls w1))"
  from first written(1) have w1: "w1 = w\<lparr>calls := calls w @ [CreateCall path ?first],
                                           files := (files w)(path \<mapsto> f)\<rparr>"
    by simp
  have here: "files w1 path = Some f" by (simp add: w1)
  have writable: "\<not> (readonly f \<and> \<not> Root X)"
  proof (cases "files w path")
    case None
    with written(3) may show ?thesis by auto
  next
    case (Some f0)
    with written(4) show ?thesis by auto
  qed
  have run: "generatePDF X path title body w1 =
          (None, w1\<lparr>calls := calls w1 @ [CreateCall path ?again],
                     files := (files w1)(path \<mapsto> f\<lparr>contents := Report (pages ?again)\<rparr>)\<rparr>)"
    using here writable io by (simp add: generatePDF_eq Create_def put_def)
  have same: "files (snd (generatePDF X path title body w1)) = files w1"
    if "Now X (calls w1) = Now X (calls w)"
  proof -
    from that written(2) have "f\<lparr>contents := Report (pages ?again)\<rparr> = f" by simp
    with here show ?thesis by (simp add: run fun_upd_idem)
  qed
  note r = document_ready [of "SplitText X" title body "Now X (calls w1)"]
  from run here written(2) same r show ?thesis by (simp add: Let_def)
qed

theorem render_again_witness:
  "generatePDF demo ''out/x.pdf'' ''x'' ''A body.'' demo_world =
     (None, snd (generatePDF demo ''out/x.pdf'' ''x'' ''A body.'' demo_world)) \<and>
   \<not> masksOwnerWrite (Umask demo) \<and>
   fst (generatePDF demo ''out/x.pdf'' ''x'' ''A body.''
          (snd (generatePDF demo ''out/x.pdf'' ''x'' ''A body.'' demo_world))) = None \<and>
   created (calls (snd (generatePDF demo ''out/x.pdf'' ''x'' ''A body.''
          (snd (generatePDF demo ''out/x.pdf'' ''x'' ''A body.'' demo_world))))) =
     [''out/x.pdf'', ''out/x.pdf''] \<and>
   files (snd (generatePDF demo ''out/x.pdf'' ''x'' ''A body.''
                 (snd (generatePDF demo ''out/x.pdf'' ''x'' ''A body.'' demo_world)))) =
     files (snd (generatePDF demo ''out/x.pdf'' ''x'' ''A body.'' demo_world))"
proof -
  let ?w1 = "snd (generatePDF demo ''out/x.pdf'' ''x'' ''A body.'' demo_world)"
  let ?again = "document (SplitText demo) ''x'' ''A body.'' (Now demo (calls ?w1))"
  have "fst (generatePDF demo ''out/x.pdf'' ''x'' ''A body.'' demo_world) = None"
    by (simp add: generatePDF_eq Create_def put_def demo_def demo_world_def)
  then have h: "generatePDF demo ''out/x.pdf'' ''x'' ''A body.'' demo_world = (None, ?w1)"
    by (metis prod.collapse)
  have u: "\<not> masksOwnerWrite (Umask demo)"
    by (simp add: masksOwnerWrite_def demo_def)
  then have may: "Root demo \<or> \<not> masksOwnerWrite (Umask demo) \<or>
      files demo_world ''out/x.pdf'' \<noteq> None" by simp
  have io: "WriteTo demo (calls ?w1 @ [CreateCall ''out/x.pdf'' ?again]) ''out/x.pdf''
              (Output demo (pages ?again)) = None"
    by (simp add: demo_def)
  have n: "Now demo (calls ?w1) = Now demo (calls demo_world)"
    by (simp add: demo_def)
  note c = render_again_overwrites [OF h may io, unfolded Let_def]
  have k: "created (calls (snd (generatePDF demo ''out/x.pdf'' ''x'' ''A body.'' ?w1))) =
     [''out/x.pdf'', ''out/x.pdf'']"
    using c [THEN conjunct2, THEN conjunct1]
    by (simp add: created_append generatePDF_eq Create_def put_def demo_def demo_world_def)
  have s: "files (snd (generatePDF demo ''out/x.pdf'' ''x'' ''A body.'' ?w1)) = files ?w1"
    using c [THEN conjunct2, THEN conjunct2, THEN conjunct2, THEN conjunct2, THEN conjunct2] n
    by (rule mp)
  from h u c [THEN conjunct1] k s show ?thesis by (intro conjI)
qed


text \<open>
  The claim that a second rendering always succeeds fails on a process that is not root
  and whose mask takes the owner's write permission from the files it makes: the first
  call makes the file and writes the report, and the second may not open the file. It
  fails as well when the second write meets an error: the file has been emptied by then,
  and what is left in it is no report.
\<close>

theorem render_again_counterexample:
  "files demo_world ''out/x.pdf'' = None \<and>
   fst (generatePDF demo_masked ''out/x.pdf'' ''x'' ''A body.'' demo_world) = None \<and>
   fst (generatePDF demo_masked ''out/x.pdf'' ''x'' ''A body.''
          (snd (generatePDF demo_masked ''out/x.pdf'' ''x'' ''A body.'' demo_world))) =
     Some ''open out/x.pdf: permission denied'' \<and>
   fst (generatePDF demo_full ''out/x.pdf'' ''x'' ''A body.'' demo_world) = None \<and>
   fst (generatePDF demo_full ''out/x.pdf'' ''x'' ''A body.''
          (snd (generatePDF demo_full ''out/x.pdf'' ''x'' ''A body.'' demo_world))) =
     Some ''write out/x.pdf: no space left on device'' \<and>
   map_option contents
     (files (snd (generatePDF demo_full ''out/x.pdf'' ''x'' ''A body.''
                    (snd (generatePDF demo_full ''out/x.pdf'' ''x'' ''A body.'' demo_world))))
        ''out/x.pdf'') =
     Some (Bytes [])"
  by (simp add: generatePDF_eq Create_def put_def masksOwnerWrite_def demo_masked_def
      demo_full_def demo_def demo_world_def created_append)

text \<open>
  Claim C9. When \<^verbatim>\<open>LLM_GOVERNOR_FUNCTION\<close> is not set (\<^verbatim>\<open>os.Getenv\<close> gives the empty
  string), every run ends fatally before input discovery, whatever the input directory
  holds, with the error for a missing directory name or else the one for the governor:
  \<^verbatim>\<open>runProcessor\<close> and the embedding build leave the world exactly as it was, and
  \<^verbatim>\<open>main\<close>, in either mode, makes no call at all (no listing, no read, no request, no
  file created) and leaves the file system as it was.
\<close>

theorem governor_not_set_stops_before_discovery:
  assumes "Getenv (environ w) ''LLM_GOVERNOR_FUNCTION'' = []"
  shows "runProcessor X inputDir outputDir executionRunID w =
           (Fatal (if inputDir = [] \<or> outputDir = [] then DirsRequired
                   else GovernorNotAvailable), w) \<and>
         main_embedded X w =
           (Fatal (if Getenv (environ w) ''INPUT_DIR'' = [] \<or>
                      Getenv (environ w) ''OUTPUT_DIR'' = []
                   then DirsRequired else GovernorNotAvailable), w) \<and>
         (\<exists>f w'. main X event w = (Fatal f, w') \<and>
                 (f = DirsRequired \<or> f = GovernorNotAvailable) \<and>
                 calls w' = calls w \<and> files w' = files w)"
proof -
  have un: "\<not> Available (NewGovernor (environ w))"
    using assms by (simp add: Available_def NewGovernor_def)
  have "Getenv (snd (Setenv (environ w) ''EXECUTION_RUN_ID'' v)) ''LLM_GOVERNOR_FUNCTION'' = []"
    for v
    using assms by (simp add: Getenv_Setenv_other)
  then have un': "\<not> Available (NewGovernor (environ
      (w\<lparr>environ := snd (Setenv (environ w) ''EXECUTION_RUN_ID'' v)\<rparr>)))" for v
    by (simp add: Available_def NewGovernor_def)
  have "\<exists>f w'. main X event w = (Fatal f, w') \<and> (f = DirsRequired \<or> f = GovernorNotAvailable) \<and>
          calls w' = calls w \<and> files w' = files w"
  proof (cases "Getenv (environ w) ''AWS_LAMBDA_RUNTIME_API'' = []")
    case True
    then show ?thesis by (simp add: main_def runProcessor_unavailable [OF un])
  next
    case False
    then show ?thesis
      by (simp add: main_def handleLambda_def Let_def runProcessor_unavailable [OF un'])
  qed
  then show ?thesis
    by (simp add: runProcessor_unavailable [OF un] main_embedded_unavailable [OF un])
qed

theorem governor_not_set_witness:
  "Getenv (environ demo_world_ungoverned) ''LLM_GOVERNOR_FUNCTION'' = [] \<and>
   runProcessor demo ''in'' ''out'' ''run-1'' demo_world_ungoverned =
     (Fatal GovernorNotAvailable, demo_world_ungoverned) \<and>
   main_embedded demo demo_world_ungoverned = (Fatal GovernorNotAvailable, demo_world_ungoverned) \<and>
   (\<exists>f w'. main demo demo_event demo_world_ungoverned = (Fatal f, w') \<and>
           (f = DirsRequired \<or> f = GovernorNotAvailable) \<and>
           calls w' = calls demo_world_ungoverned \<and> files w' = files demo_world_ungoverned)"
proof -
  have h: "Getenv (environ demo_world_ungoverned) ''LLM_GOVERNOR_FUNCTION'' = []"
    by (simp add: demo_eval)
  have d: "Getenv (environ demo_world_ungoverned) ''INPUT_DIR'' \<noteq> []"
    "Getenv (environ demo_world_ungoverned) ''OUTPUT_DIR'' \<noteq> []"
    by (simp_all add: demo_eval)
  note c = governor_not_set_stops_before_discovery
    [OF h, of demo "''in''" "''out''" "''run-1''" demo_event]
  have c1: "runProcessor demo ''in'' ''out'' ''run-1'' demo_world_ungoverned =
     (Fatal GovernorNotAvailable, demo_world_ungoverned)"
    using c [THEN conjunct1] by simp
  have c2: "main_embedded demo demo_world_ungoverned =
     (Fatal GovernorNotAvailable, demo_world_ungoverned)"
    using c [THEN conjunct2, THEN conjunct1] d by simp
  from h c1 c2 c [THEN conjunct2, THEN conjunct2] show ?thesis by (intro conjI)
qed

text \<open>
  For a payload whose run identifier holds no NUL byte, the handler runs the pipeline in
  the environment in which \<^verbatim>\<open>EXECUTION_RUN_ID\<close> holds that identifier, and afterwards the
  environment is the one it was called in with this one variable set.
\<close>

lemma handleLambda_sets_run_id:
  assumes "CHR 0x00 \<notin> set (ExecutionRunID event)"
  shows "handleLambda X event w =
           runProcessor X (InputDir event) (OutputDir event) (ExecutionRunID event)
             (w\<lparr>environ := (environ w)(''EXECUTION_RUN_ID'' \<mapsto> ExecutionRunID event)\<rparr>) \<and>
         environ (snd (handleLambda X event w)) =
           (environ w)(''EXECUTION_RUN_ID'' \<mapsto> ExecutionRunID event)"
  using assms
  by (simp add: handleLambda_def Let_def Setenv_run_id runProcessor_keeps_environ)

text \<open>
  Claim C10. The handler is to write the run identifier of the payload into
  \<^verbatim>\<open>EXECUTION_RUN_ID\<close> before it runs the pipeline, as its comment says (\<^verbatim>\<open>Set
  EXECUTION_RUN_ID for the LLM SDK\<close>), but it never looks at the result of \<^verbatim>\<open>os.Setenv\<close>.
  On a payload whose identifier holds a NUL byte the call is refused, the variable keeps
  the value the process was started with, and the run goes on and completes: every
  request of the run goes through a governor client that carries the stale identifier.
  No other variable is modified.
\<close>

theorem handler_keeps_stale_run_id:
  "ExecutionRunID demo_event_nul = [CHR ''r'', CHR 0x00] \<and>
   fst (Setenv (environ demo_world) ''EXECUTION_RUN_ID'' (ExecutionRunID demo_event_nul)) \<and>
   fst (handleLambda demo demo_event_nul demo_world) = Complete \<and>
   environ (snd (handleLambda demo demo_event_nul demo_world)) = environ demo_world \<and>
   environ demo_world ''EXECUTION_RUN_ID'' = Some ''run-1'' \<and>
   map govRunID (governors (calls (snd (handleLambda demo demo_event_nul demo_world)))) =
     [''run-1'', ''run-1'']"
proof -
  have e: "ExecutionRunID demo_event_nul = [CHR ''r'', CHR 0x00]"
    by (simp add: demo_event_nul_def)
  have s: "snd (Setenv (environ demo_world) ''EXECUTION_RUN_ID'' (ExecutionRunID demo_event_nul)) =
             environ demo_world"
    "fst (Setenv (environ demo_world) ''EXECUTION_RUN_ID'' (ExecutionRunID demo_event_nul))"
    by (simp_all add: Setenv_def e)
  have h: "handleLambda demo demo_event_nul demo_world =
             runProcessor demo ''in'' ''out'' [CHR ''r'', CHR 0x00] demo_world"
    by (simp add: handleLambda_def Let_def s) (simp add: demo_event_nul_def demo_event_def)
  have r: "fst (runProcessor demo ''in'' ''out'' [CHR ''r'', CHR 0x00] demo_world) = Complete"
    "map govRunID (governors (calls
       (snd (runProcessor demo ''in'' ''out'' [CHR ''r'', CHR 0x00] demo_world)))) =
     [''run-1'', ''run-1'']"
    by (simp_all add: run_eval path_eval demo_eval)
  have v: "environ demo_world ''EXECUTION_RUN_ID'' = Some ''run-1''"
    by (simp add: demo_world_def)
  from e s(2) r v show ?thesis
    by (simp only: h runProcessor_keeps_environ)
qed

end
